theory Spec2Isabelle
  imports Main
begin

section \<open>Python strings\<close>

text \<open>
  A Python \<open>str\<close> is a sequence of Unicode code points; positions, slices and \<open>len\<close>
  count code points. A character is modelled by its code point.
\<close>

type_synonym uchar = nat
type_synonym ustr = "nat list"

text \<open>
  \<open>str.isspace\<close> of one character, which is also what \<open>\s\<close> matches in a \<open>str\<close> pattern
  and what \<open>str.strip\<close> removes (Unicode 14 tables of CPython 3.11).
\<close>

definition is_space :: "uchar \<Rightarrow> bool" where
  "is_space c = ((0x9 \<le> c \<and> c \<le> 0xD) \<or> (0x1C \<le> c \<and> c \<le> 0x20) \<or> c = 0x85 \<or> c = 0xA0
     \<or> c = 0x1680 \<or> (0x2000 \<le> c \<and> c \<le> 0x200A) \<or> c = 0x2028 \<or> c = 0x2029
     \<or> c = 0x202F \<or> c = 0x205F \<or> c = 0x3000)"

text \<open>
  What \<open>\d\<close> matches in a \<open>str\<close> pattern: the decimal digits of Unicode (category Nd), which
  come in runs of ten starting at the code points below.
\<close>

definition decimal_starts :: "nat list" where
  "decimal_starts =
    [0x30, 0x660, 0x6F0, 0x7C0, 0x966, 0x9E6, 0xA66, 0xAE6, 0xB66, 0xBE6, 0xC66, 0xCE6,
     0xD66, 0xDE6, 0xE50, 0xED0, 0xF20, 0x1040, 0x1090, 0x17E0, 0x1810, 0x1946, 0x19D0,
     0x1A80, 0x1A90, 0x1B50, 0x1BB0, 0x1C40, 0x1C50, 0xA620, 0xA8D0, 0xA900, 0xA9D0,
     0xA9F0, 0xAA50, 0xABF0, 0xFF10, 0x104A0, 0x10D30, 0x11066, 0x110F0, 0x11136,
     0x111D0, 0x112F0, 0x11450, 0x114D0, 0x11650, 0x116C0, 0x11730, 0x118E0, 0x11950,
     0x11C50, 0x11D50, 0x11DA0, 0x16A60, 0x16AC0, 0x16B50, 0x1D7CE, 0x1D7D8, 0x1D7E2,
     0x1D7EC, 0x1D7F6, 0x1E140, 0x1E2F0, 0x1E950, 0x1FBF0]"

definition is_decimal :: "uchar \<Rightarrow> bool" where
  "is_decimal c = list_ex (\<lambda>s. s \<le> c \<and> c < s + 10) decimal_starts"

text \<open>\<open>s.rstrip()\<close>, \<open>s.strip()\<close>, \<open>sub in s\<close> and \<open>s[a:b]\<close>.\<close>

definition rstrip :: "ustr \<Rightarrow> ustr" where
  "rstrip s = rev (dropWhile is_space (rev s))"

definition strip :: "ustr \<Rightarrow> ustr" where
  "strip s = rstrip (dropWhile is_space s)"

fun contains :: "ustr \<Rightarrow> ustr \<Rightarrow> bool" where
  "contains [] sub = (sub = [])"
| "contains (x # xs) sub = (take (length sub) (x # xs) = sub \<or> contains xs sub)"

definition slice :: "ustr \<Rightarrow> nat \<Rightarrow> nat \<Rightarrow> ustr" where
  "slice s a b = take (b - a) (drop a s)"

text \<open>
  The test \<open>not text or not text.strip()\<close>: the text is empty or whitespace only.
\<close>

definition blank :: "ustr \<Rightarrow> bool" where
  "blank s = (s = [] \<or> strip s = [])"

text \<open>
  \<open>ch.upper()\<close> of one character. ASCII letters are modelled exactly, and so is U+0131
  (dotless i), whose upper case is \<open>I\<close>: it is the only code point outside ASCII whose
  upper case lies in \<open>A..J\<close>. Every other code point is left as it is, which is all the
  source observes of it (it only asks whether the result lies in \<open>A..J\<close>).
\<close>

definition upper_char :: "uchar \<Rightarrow> uchar" where
  "upper_char c = (if 0x61 \<le> c \<and> c \<le> 0x7A then c - 0x20 else if c = 0x131 then 0x49 else c)"

section \<open>The answer-string parser\<close>

text \<open>
  \<open>CIRCLE_TO_LETTER\<close>: the circled digits U+2460 .. U+2469 map to \<open>A .. J\<close>.
\<close>

definition CIRCLE_TO_LETTER :: "uchar \<rightharpoonup> uchar" where
  "CIRCLE_TO_LETTER c = (if 0x2460 \<le> c \<and> c \<le> 0x2469 then Some (c - 0x2460 + 0x41) else None)"

text \<open>
  The separators that \<open>_parse_answer_string\<close> removes with \<open>str.replace\<close>:
  U+3001 (ideographic comma), \<open>,\<close>, U+FF0C (full-width comma) and the space.
\<close>

definition is_separator :: "uchar \<Rightarrow> bool" where
  "is_separator c = (c = 0x3001 \<or> c = 0x2C \<or> c = 0xFF0C \<or> c = 0x20)"

definition in_A_to_J :: "uchar \<Rightarrow> bool" where
  "in_A_to_J c = (0x41 \<le> c \<and> c \<le> 0x4A)"

text \<open>The first loop: one canonical letter per recognised character.\<close>

fun answer_letters :: "ustr \<Rightarrow> ustr list" where
  "answer_letters [] = []"
| "answer_letters (c # cs) =
     (if in_A_to_J (upper_char c) then [upper_char c] # answer_letters cs
      else case CIRCLE_TO_LETTER c of
             Some l \<Rightarrow> [l] # answer_letters cs
           | None \<Rightarrow> answer_letters cs)"

text \<open>The second loop: duplicates are dropped, the first occurrence is kept.\<close>

fun unique_answers :: "ustr list \<Rightarrow> ustr list \<Rightarrow> ustr list" where
  "unique_answers seen [] = []"
| "unique_answers seen (a # as) =
     (if a \<in> set seen then unique_answers seen as else a # unique_answers (a # seen) as)"

definition parse_answer_string :: "ustr \<Rightarrow> ustr list" where
  "parse_answer_string answer_str =
     unique_answers [] (answer_letters (filter (\<lambda>c. \<not> is_separator c) answer_str))"

text \<open>\<open>sep.join(parts)\<close>.\<close>

fun join :: "ustr \<Rightarrow> ustr list \<Rightarrow> ustr" where
  "join sep [] = []"
| "join sep [p] = p"
| "join sep (p # q # ps) = p @ sep @ join sep (q # ps)"

section \<open>A model of Python's regular expressions\<close>

text \<open>
  The fragment of \<open>re\<close> that the recogniser uses: literals, \<open>.\<close>, character sets with
  ranges and the classes \<open>\s\<close>, \<open>\S\<close>, \<open>\d\<close>, the anchors \<open>^\<close> and \<open>$\<close>, sequence,
  alternation, \<open>?\<close>, greedy and lazy repetition of a single-character atom (\<open>*\<close>, \<open>+\<close>,
  \<open>+?\<close>, \<open>*?\<close>, \<open>{n,}\<close>), capturing groups and the lookahead \<open>(?=...)\<close>. Every
  repetition in the source is over one character, so \<open>Rep\<close> takes an atom.
\<close>

datatype citem = CChar uchar | CRange uchar uchar | CSpace | CNotSpace | CDigit

datatype atom = ALit uchar | AAny | ASet "citem list"

datatype regex =
    Eps
  | Atom atom
  | Bol
  | Eol
  | Seq regex regex
  | Alt regex regex
  | Opt regex
  | Rep bool nat atom
  | Grp nat regex
  | Look regex

text \<open>The flags \<open>re.MULTILINE\<close>, \<open>re.DOTALL\<close> and \<open>re.IGNORECASE\<close>.\<close>

datatype flags = Flags (multiline: bool) (dotall: bool) (ignorecase: bool)

abbreviation FL_NONE :: flags where "FL_NONE \<equiv> Flags False False False"
abbreviation FL_M :: flags where "FL_M \<equiv> Flags True False False"
abbreviation FL_MS :: flags where "FL_MS \<equiv> Flags True True False"
abbreviation FL_S :: flags where "FL_S \<equiv> Flags False True False"
abbreviation FL_I :: flags where "FL_I \<equiv> Flags False False True"
abbreviation FL_IM :: flags where "FL_IM \<equiv> Flags True False True"

fun item_match :: "citem \<Rightarrow> uchar \<Rightarrow> bool" where
  "item_match (CChar x) c = (c = x)"
| "item_match (CRange lo hi) c = (lo \<le> c \<and> c \<le> hi)"
| "item_match CSpace c = is_space c"
| "item_match CNotSpace c = (\<not> is_space c)"
| "item_match CDigit c = is_decimal c"

fun atom_match :: "bool \<Rightarrow> atom \<Rightarrow> uchar \<Rightarrow> bool" where
  "atom_match ds (ALit x) c = (c = x)"
| "atom_match ds AAny c = (ds \<or> c \<noteq> 0xA)"
| "atom_match ds (ASet items) c = list_ex (\<lambda>it. item_match it c) items"

text \<open>
  Under \<open>re.IGNORECASE\<close> a character matches when one of its case variants does. The
  patterns of the source hold no cased character other than the ASCII letters of their
  sets, for which the variants are the two ASCII cases and, as the \<open>re\<close> documentation
  lists them, U+0130 and U+0131 for \<open>i\<close>, U+017F for \<open>s\<close> and U+212A for \<open>k\<close>.
\<close>

definition case_class :: "uchar \<Rightarrow> uchar list" where
  "case_class c =
     (if c = 0x49 \<or> c = 0x69 \<or> c = 0x130 \<or> c = 0x131 then [0x49, 0x69, 0x130, 0x131]
      else if c = 0x53 \<or> c = 0x73 \<or> c = 0x17F then [0x53, 0x73, 0x17F]
      else if c = 0x4B \<or> c = 0x6B \<or> c = 0x212A then [0x4B, 0x6B, 0x212A]
      else if 0x41 \<le> c \<and> c \<le> 0x5A then [c, c + 0x20]
      else if 0x61 \<le> c \<and> c \<le> 0x7A then [c, c - 0x20]
      else [c])"

definition amatch :: "flags \<Rightarrow> atom \<Rightarrow> uchar \<Rightarrow> bool" where
  "amatch fl a c =
     (if ignorecase fl then list_ex (atom_match (dotall fl) a) (case_class c)
      else atom_match (dotall fl) a c)"

text \<open>Captured groups: group number to (start, end).\<close>

type_synonym caps = "nat \<rightharpoonup> nat \<times> nat"

text \<open>How many characters from position \<open>i\<close> on match the atom.\<close>

definition run :: "flags \<Rightarrow> atom \<Rightarrow> ustr \<Rightarrow> nat \<Rightarrow> nat" where
  "run fl a t i = length (takeWhile (amatch fl a) (drop i t))"

text \<open>
  \<open>rmatch fl t r (i, c)\<close> lists, in the order in which the backtracking matcher of \<open>re\<close>
  tries them, every way in which \<open>r\<close> matches \<open>t\<close> from position \<open>i\<close>: the end position
  and the captures. The match that \<open>re\<close> reports is the first of the list.
\<close>

fun rmatch :: "flags \<Rightarrow> ustr \<Rightarrow> regex \<Rightarrow> nat \<times> caps \<Rightarrow> (nat \<times> caps) list" where
  "rmatch fl t Eps st = [st]"
| "rmatch fl t (Atom a) (i, c) =
     (if i < length t \<and> amatch fl a (t ! i) then [(Suc i, c)] else [])"
| "rmatch fl t Bol (i, c) =
     (if i = 0 \<or> (multiline fl \<and> i \<le> length t \<and> t ! (i - 1) = 0xA) then [(i, c)] else [])"
| "rmatch fl t Eol (i, c) =
     (if i = length t
         \<or> (i < length t \<and> t ! i = 0xA \<and> (multiline fl \<or> Suc i = length t))
      then [(i, c)] else [])"
| "rmatch fl t (Seq r s) st = concat (map (rmatch fl t s) (rmatch fl t r st))"
| "rmatch fl t (Alt r s) st = rmatch fl t r st @ rmatch fl t s st"
| "rmatch fl t (Opt r) st = rmatch fl t r st @ [st]"
| "rmatch fl t (Rep greedy mn a) (i, c) =
     (let n = run fl a t i;
          ks = [mn ..< Suc n]
      in map (\<lambda>k. (i + k, c)) (if greedy then rev ks else ks))"
| "rmatch fl t (Grp g r) (i, c) =
     map (\<lambda>(j, c'). (j, c'(g \<mapsto> (i, j)))) (rmatch fl t r (i, c))"
| "rmatch fl t (Look r) (i, c) =
     (case rmatch fl t r (i, c) of [] \<Rightarrow> [] | (j, c') # _ \<Rightarrow> [(i, c')])"

text \<open>A match object: start, end and captures.\<close>

type_synonym rmatch_obj = "nat \<times> nat \<times> caps"

definition m_start :: "rmatch_obj \<Rightarrow> nat" where
  "m_start m = fst m"

definition m_end :: "rmatch_obj \<Rightarrow> nat" where
  "m_end m = fst (snd m)"

text \<open>
  \<open>m.group(g)\<close> for a group that took part in the match. Every \<open>group\<close> call of the source
  names a group that stands on every path through its pattern.
\<close>

definition group :: "ustr \<Rightarrow> rmatch_obj \<Rightarrow> nat \<Rightarrow> ustr" where
  "group t m g = (case snd (snd m) g of Some (a, b) \<Rightarrow> slice t a b | None \<Rightarrow> [])"

definition match_at :: "flags \<Rightarrow> regex \<Rightarrow> ustr \<Rightarrow> nat \<Rightarrow> rmatch_obj option" where
  "match_at fl r t s =
     (case rmatch fl t r (s, Map.empty) of [] \<Rightarrow> None | (e, c) # _ \<Rightarrow> Some (s, e, c))"

text \<open>\<open>re.match\<close>: a match at position 0 only.\<close>

definition re_match :: "flags \<Rightarrow> regex \<Rightarrow> ustr \<Rightarrow> rmatch_obj option" where
  "re_match fl r t = match_at fl r t 0"

text \<open>\<open>re.search\<close>: the match at the leftmost position that has one.\<close>

function search_from :: "flags \<Rightarrow> regex \<Rightarrow> ustr \<Rightarrow> nat \<Rightarrow> rmatch_obj option" where
  "search_from fl r t s =
     (if length t < s then None
      else case match_at fl r t s of
             Some m \<Rightarrow> Some m
           | None \<Rightarrow> search_from fl r t (Suc s))"
  by pat_completeness auto
termination
  by (relation "measure (\<lambda>(fl, r, t, s). Suc (length t) - s)") auto

definition re_search :: "flags \<Rightarrow> regex \<Rightarrow> ustr \<Rightarrow> rmatch_obj option" where
  "re_search fl r t = search_from fl r t 0"

text \<open>
  \<open>re.finditer\<close>: the successive non-overlapping matches, left to right. After a match
  the scan goes on from its end. No pattern that the source hands to \<open>finditer\<close>,
  \<open>findall\<close> or \<open>sub\<close> matches the empty string; were a match empty, the scan here
  moves on by one character.
\<close>

function finditer_from :: "flags \<Rightarrow> regex \<Rightarrow> ustr \<Rightarrow> nat \<Rightarrow> rmatch_obj list" where
  "finditer_from fl r t s =
     (if length t < s then []
      else case match_at fl r t s of
             None \<Rightarrow> finditer_from fl r t (Suc s)
           | Some m \<Rightarrow> m # finditer_from fl r t (max (m_end m) (Suc s)))"
  by pat_completeness auto
termination
  by (relation "measure (\<lambda>(fl, r, t, s). Suc (length t) - s)") auto

definition re_finditer :: "flags \<Rightarrow> regex \<Rightarrow> ustr \<Rightarrow> rmatch_obj list" where
  "re_finditer fl r t = finditer_from fl r t 0"

text \<open>
  \<open>re.sub(pattern, repl, t, count)\<close> for a replacement without group references:
  the first \<open>count\<close> matches (all of them for \<open>None\<close>) are replaced.
\<close>

fun sub_matches :: "ustr \<Rightarrow> ustr \<Rightarrow> nat \<Rightarrow> rmatch_obj list \<Rightarrow> ustr" where
  "sub_matches t repl lastpos [] = drop lastpos t"
| "sub_matches t repl lastpos (m # ms) =
     slice t lastpos (m_start m) @ repl @ sub_matches t repl (m_end m) ms"

definition re_sub :: "flags \<Rightarrow> regex \<Rightarrow> ustr \<Rightarrow> ustr \<Rightarrow> nat option \<Rightarrow> ustr" where
  "re_sub fl r repl t count =
     (let ms = re_finditer fl r t
      in sub_matches t repl 0 (case count of None \<Rightarrow> ms | Some n \<Rightarrow> take n ms))"

text \<open>Building patterns: a sequence, a choice, a literal string, the usual repetitions.\<close>

fun seqs :: "regex list \<Rightarrow> regex" where
  "seqs [] = Eps"
| "seqs [r] = r"
| "seqs (r # rs) = Seq r (seqs rs)"

fun alts :: "regex list \<Rightarrow> regex" where
  "alts [] = Eps"
| "alts [r] = r"
| "alts (r # rs) = Alt r (alts rs)"

definition lit :: "ustr \<Rightarrow> regex" where
  "lit s = seqs (map (\<lambda>c. Atom (ALit c)) s)"

abbreviation star :: "atom \<Rightarrow> regex" where "star a \<equiv> Rep True 0 a"
abbreviation plus :: "atom \<Rightarrow> regex" where "plus a \<equiv> Rep True 1 a"
abbreviation lazy_star :: "atom \<Rightarrow> regex" where "lazy_star a \<equiv> Rep False 0 a"
abbreviation lazy_plus :: "atom \<Rightarrow> regex" where "lazy_plus a \<equiv> Rep False 1 a"
abbreviation ws :: atom where "ws \<equiv> ASet [CSpace]"
abbreviation digit :: atom where "digit \<equiv> ASet [CDigit]"

section \<open>The patterns of the recogniser\<close>

text \<open>
  The characters and words that the patterns share, by code point. \<open>LBR\<close> and \<open>RBR\<close> are
  the lenticular brackets U+3010 and U+3011; \<open>DA_AN\<close> is the word for "answer",
  \<open>ZHENGQUE\<close> "correct", \<open>CANKAO\<close> "reference", \<open>BENTI\<close> "this question", \<open>JIEXI\<close>,
  \<open>JIEDA\<close>, \<open>FENXI\<close> and \<open>XIANGJIE\<close> the four words for "explanation", \<open>XUANXIANG\<close>
  "option", \<open>DUOXUAN\<close> "multiple choice", \<open>DANXUAN\<close> "single choice", \<open>CITI\<close> and
  \<open>GAITI\<close> two more words for "this question", \<open>YINGXUAN\<close> "should choose".
  \<open>CIRCLED\<close> lists the circled digits one to ten, \<open>NUMERALS\<close> the numerals one to nine,
  ten and hundred.
\<close>

abbreviation (input) NL :: uchar where "NL \<equiv> 0xA"
abbreviation (input) LBR :: uchar where "LBR \<equiv> 0x3010"
abbreviation (input) RBR :: uchar where "RBR \<equiv> 0x3011"
abbreviation (input) DA_AN :: ustr where "DA_AN \<equiv> [0x7B54, 0x6848]"
abbreviation (input) ZHENGQUE :: ustr where "ZHENGQUE \<equiv> [0x6B63, 0x786E]"
abbreviation (input) CANKAO :: ustr where "CANKAO \<equiv> [0x53C2, 0x8003]"
abbreviation (input) BENTI :: ustr where "BENTI \<equiv> [0x672C, 0x9898]"
abbreviation (input) JIEXI :: ustr where "JIEXI \<equiv> [0x89E3, 0x6790]"
abbreviation (input) JIEDA :: ustr where "JIEDA \<equiv> [0x89E3, 0x7B54]"
abbreviation (input) FENXI :: ustr where "FENXI \<equiv> [0x5206, 0x6790]"
abbreviation (input) XIANGJIE :: ustr where "XIANGJIE \<equiv> [0x8BE6, 0x89E3]"
abbreviation (input) XUANXIANG :: ustr where "XUANXIANG \<equiv> [0x9009, 0x9879]"
abbreviation (input) DUOXUAN :: ustr where "DUOXUAN \<equiv> [0x591A, 0x9009]"
abbreviation (input) DANXUAN :: ustr where "DANXUAN \<equiv> [0x5355, 0x9009]"
abbreviation (input) CITI :: ustr where "CITI \<equiv> [0x6B64, 0x9898]"
abbreviation (input) GAITI :: ustr where "GAITI \<equiv> [0x8BE5, 0x9898]"
abbreviation (input) YINGXUAN :: ustr where "YINGXUAN \<equiv> [0x5E94, 0x9009]"

abbreviation (input) CIRCLED :: "citem list" where
  "CIRCLED \<equiv> [CChar 0x2460, CChar 0x2461, CChar 0x2462, CChar 0x2463, CChar 0x2464,
              CChar 0x2465, CChar 0x2466, CChar 0x2467, CChar 0x2468, CChar 0x2469]"

abbreviation (input) NUMERALS :: "citem list" where
  "NUMERALS \<equiv> [CChar 0x4E00, CChar 0x4E8C, CChar 0x4E09, CChar 0x56DB, CChar 0x4E94,
               CChar 0x516D, CChar 0x4E03, CChar 0x516B, CChar 0x4E5D, CChar 0x5341,
               CChar 0x767E]"

text \<open>
  The four \<open>QUESTION_NUMBER_PATTERNS\<close>, in the order of the source.

  \<^verbatim>\<open>(?:^|\n)\s*(\d+)\s*[.\u3001\):\uff1a]\s*\<close>

  \<^verbatim>\<open>(?:^|\n)\s*[\uff08(]?([\u4e00\u4e8c\u4e09\u56db\u4e94\u516d\u4e03\u516b\u4e5d\u5341\u767e]+)[\uff09)]?\s*[\u3001.\uff0e:\uff1a]\s*\<close>

  \<^verbatim>\<open>(?:^|\n)\s*[\uff08(](\d+)[\uff09)]\s*\<close>

  \<^verbatim>\<open>(?:^|\n)\s*\u7b2c\s*(\d+|[\u4e00\u4e8c\u4e09\u56db\u4e94\u516d\u4e03\u516b\u4e5d\u5341\u767e]+)\s*\u9898[.\u3001:\uff1a]?\s*\<close>
\<close>

definition QN_DIGIT :: regex where
  "QN_DIGIT =
     seqs [alts [Bol, Atom (ALit NL)], star ws, Grp 1 (plus digit), star ws, Atom (ASet [CChar
     0x2E, CChar 0x3001, CChar 0x29, CChar 0x3A, CChar 0xFF1A]), star ws]"

definition QN_CHINESE :: regex where
  "QN_CHINESE =
     seqs [alts [Bol, Atom (ALit NL)], star ws, Opt (Atom (ASet [CChar 0xFF08, CChar 0x28])),
     Grp 1 (plus (ASet NUMERALS)), Opt (Atom (ASet [CChar 0xFF09, CChar 0x29])), star ws, Atom
     (ASet [CChar 0x3001, CChar 0x2E, CChar 0xFF0E, CChar 0x3A, CChar 0xFF1A]), star ws]"

definition QN_PAREN :: regex where
  "QN_PAREN =
     seqs [alts [Bol, Atom (ALit NL)], star ws, Atom (ASet [CChar 0xFF08, CChar 0x28]), Grp 1
     (plus digit), Atom (ASet [CChar 0xFF09, CChar 0x29]), star ws]"

definition QN_PREFIX :: regex where
  "QN_PREFIX =
     seqs [alts [Bol, Atom (ALit NL)], star ws, Atom (ALit 0x7B2C), star ws, Grp 1 (alts [plus
     digit, plus (ASet NUMERALS)]), star ws, Atom (ALit 0x9898), Opt (Atom (ASet [CChar 0x2E,
     CChar 0x3001, CChar 0x3A, CChar 0xFF1A])), star ws]"

definition QUESTION_NUMBER_PATTERNS :: "regex list" where
  "QUESTION_NUMBER_PATTERNS = [QN_DIGIT, QN_CHINESE, QN_PAREN, QN_PREFIX]"

text \<open>
  The twelve \<open>ANSWER_PATTERNS\<close>, in the order of the source.

  \<^verbatim>\<open>\u3010(?:\u7b54\u6848|\u6b63\u786e\u7b54\u6848|\u53c2\u8003\u7b54\u6848|\u672c\u9898\u7b54\u6848)\u3011\s*[\uff1a:]?\s*([A-Za-z\u2460\u2461\u2462\u2463\u2464\u2465\u2466\u2467\u2468\u2469\u3001,\uff0c\s]+)\<close>

  \<^verbatim>\<open>[\uff08\(](?:\u7b54\u6848|\u6b63\u786e\u7b54\u6848|\u53c2\u8003\u7b54\u6848)[\uff1a:]\s*([A-Za-z\u2460\u2461\u2462\u2463\u2464\u2465\u2466\u2467\u2468\u2469\u3001,\uff0c]+)[\uff09\)]\<close>

  \<^verbatim>\<open>(?:\u7b54\u6848|\u6b63\u786e\u7b54\u6848|\u53c2\u8003\u7b54\u6848|\u672c\u9898\u7b54\u6848)\s*[\uff1a:]\s*([A-Za-z\u2460\u2461\u2462\u2463\u2464\u2465\u2466\u2467\u2468\u2469\u3001,\uff0c\s]+)\<close>

  \<^verbatim>\<open>(?:\u7b54\u6848|\u6b63\u786e\u7b54\u6848|\u53c2\u8003\u7b54\u6848)\s+([A-Za-z\u2460\u2461\u2462\u2463\u2464\u2465\u2466\u2467\u2468\u2469]+)\<close>

  \<^verbatim>\<open>(?:\u5e94\u9009|\u9009)\s*([A-Za-z]+)\<close>

  \<^verbatim>\<open>([A-Z])\s*[\u221a\u2713]\<close>

  \<^verbatim>\<open>\u6b63\u786e(?:\u9009\u9879|\u7b54\u6848)(?:\u4e3a|\u662f)\s*([A-Za-z\u2460\u2461\u2462\u2463\u2464\u2465\u2466\u2467\u2468\u2469\u3001,\uff0c]+)\<close>

  \<^verbatim>\<open>(?:^|\n)\s*\u7b54\u6848\s*[\uff1a:]*\s*([A-Za-z]+)\s*(?:\n|$)\<close>

  \<^verbatim>\<open>\u7b54\s*\u6848\s*[\uff1a:]*\s*([A-Za-z]+)\<close>

  \<^verbatim>\<open>\[(?:\u7b54\u6848|\u6b63\u786e\u7b54\u6848|\u53c2\u8003\u7b54\u6848)\]\s*[\uff1a:]?\s*([A-Za-z\u2460\u2461\u2462\u2463\u2464\u2465\u2466\u2467\u2468\u2469\u3001,\uff0c]+)\<close>

  \<^verbatim>\<open>\u6545\s*\u9009\s*(?:\u62e9)?\s*([A-Za-z]+)\<close>

  \<^verbatim>\<open>\u672c\u9898\s*\u9009\s*([A-Za-z]+)\<close>
\<close>

definition ANSWER_PATTERNS :: "regex list" where
  "ANSWER_PATTERNS =
    [seqs [Atom (ALit LBR), alts [lit DA_AN, lit (ZHENGQUE @ DA_AN), lit (CANKAO @ DA_AN),
      lit (BENTI @ DA_AN)], Atom (ALit RBR), star ws, Opt (Atom (ASet [CChar 0xFF1A, CChar
      0x3A])), star ws, Grp 1 (plus (ASet ([CRange 0x41 0x5A, CRange 0x61 0x7A] @ CIRCLED @
      [CChar 0x3001, CChar 0x2C, CChar 0xFF0C, CSpace])))],
     seqs [Atom (ASet [CChar 0xFF08, CChar 0x28]), alts [lit DA_AN, lit (ZHENGQUE @ DA_AN),
      lit (CANKAO @ DA_AN)], Atom (ASet [CChar 0xFF1A, CChar 0x3A]), star ws, Grp 1 (plus
      (ASet ([CRange 0x41 0x5A, CRange 0x61 0x7A] @ CIRCLED @ [CChar 0x3001, CChar 0x2C, CChar
      0xFF0C]))), Atom (ASet [CChar 0xFF09, CChar 0x29])],
     seqs [alts [lit DA_AN, lit (ZHENGQUE @ DA_AN), lit (CANKAO @ DA_AN), lit (BENTI @
      DA_AN)], star ws, Atom (ASet [CChar 0xFF1A, CChar 0x3A]), star ws, Grp 1 (plus (ASet
      ([CRange 0x41 0x5A, CRange 0x61 0x7A] @ CIRCLED @ [CChar 0x3001, CChar 0x2C, CChar
      0xFF0C, CSpace])))],
     seqs [alts [lit DA_AN, lit (ZHENGQUE @ DA_AN), lit (CANKAO @ DA_AN)], plus ws, Grp 1
      (plus (ASet ([CRange 0x41 0x5A, CRange 0x61 0x7A] @ CIRCLED)))],
     seqs [alts [lit YINGXUAN, Atom (ALit 0x9009)], star ws, Grp 1 (plus (ASet [CRange 0x41
      0x5A, CRange 0x61 0x7A]))],
     seqs [Grp 1 (Atom (ASet [CRange 0x41 0x5A])), star ws, Atom (ASet [CChar 0x221A, CChar
      0x2713])],
     seqs [lit ZHENGQUE, alts [lit XUANXIANG, lit DA_AN], alts [Atom (ALit 0x4E3A), Atom
      (ALit 0x662F)], star ws, Grp 1 (plus (ASet ([CRange 0x41 0x5A, CRange 0x61 0x7A] @
      CIRCLED @ [CChar 0x3001, CChar 0x2C, CChar 0xFF0C])))],
     seqs [alts [Bol, Atom (ALit NL)], star ws, lit DA_AN, star ws, star (ASet [CChar 0xFF1A,
      CChar 0x3A]), star ws, Grp 1 (plus (ASet [CRange 0x41 0x5A, CRange 0x61 0x7A])), star
      ws, alts [Atom (ALit NL), Eol]],
     seqs [Atom (ALit 0x7B54), star ws, Atom (ALit 0x6848), star ws, star (ASet [CChar
      0xFF1A, CChar 0x3A]), star ws, Grp 1 (plus (ASet [CRange 0x41 0x5A, CRange 0x61 0x7A]))],
     seqs [Atom (ALit 0x5B), alts [lit DA_AN, lit (ZHENGQUE @ DA_AN), lit (CANKAO @ DA_AN)],
      Atom (ALit 0x5D), star ws, Opt (Atom (ASet [CChar 0xFF1A, CChar 0x3A])), star ws, Grp 1
      (plus (ASet ([CRange 0x41 0x5A, CRange 0x61 0x7A] @ CIRCLED @ [CChar 0x3001, CChar 0x2C,
      CChar 0xFF0C])))],
     seqs [Atom (ALit 0x6545), star ws, Atom (ALit 0x9009), star ws, Opt (Atom (ALit
      0x62E9)), star ws, Grp 1 (plus (ASet [CRange 0x41 0x5A, CRange 0x61 0x7A]))],
     seqs [lit BENTI, star ws, Atom (ALit 0x9009), star ws, Grp 1 (plus (ASet [CRange 0x41
      0x5A, CRange 0x61 0x7A]))]]"

text \<open>
  The four \<open>EXPLANATION_PATTERNS\<close>.

  \<^verbatim>\<open>\u3010(?:\u89e3\u6790|\u89e3\u7b54|\u5206\u6790|\u8be6\u89e3|\u7b54\u6848\u89e3\u6790)\u3011\s*([\s\S]+?)(?=\u3010(?:\u6b63\u786e\u7b54\u6848|\u7b54\u6848|\u89e3\u6790|\u89e3\u7b54|\u5206\u6790|\u8be6\u89e3)\u3011|\n\s*\d+\s*[.\u3001\uff0e]\s*\u3010|$)\<close>

  \<^verbatim>\<open>\u3010\u7b54\u6848\u89e3\u6790\u3011\s*([\s\S]+?)(?=\u3010(?:\u6b63\u786e\u7b54\u6848|\u7b54\u6848)\u3011|\n\s*\d+\s*[.\u3001\uff0e]\s*\u3010|$)\<close>

  \<^verbatim>\<open>(?:\u89e3\u6790|\u89e3\u7b54|\u5206\u6790|\u8be6\u89e3|\u7b54\u6848\u89e3\u6790)\s*[\uff1a:]\s*([\s\S]+?)(?=\n\s*\d+\s*[.\u3001\uff0e]\s*(?:\u3010|[A-Z])|$)\<close>

  \<^verbatim>\<open>\[(?:\u89e3\u6790|\u89e3\u7b54|\u5206\u6790)\]\s*([\s\S]+?)(?=\[(?:\u6b63\u786e\u7b54\u6848|\u7b54\u6848)\]|\n\s*\d+\s*[.\u3001\uff0e]|$)\<close>
\<close>

definition EXPLANATION_PATTERNS :: "regex list" where
  "EXPLANATION_PATTERNS =
    [seqs [Atom (ALit LBR), alts [lit JIEXI, lit JIEDA, lit FENXI, lit XIANGJIE, lit (DA_AN @
      JIEXI)], Atom (ALit RBR), star ws, Grp 1 (lazy_plus (ASet [CSpace, CNotSpace])), Look
      (alts [seqs [Atom (ALit LBR), alts [lit (ZHENGQUE @ DA_AN), lit DA_AN, lit JIEXI, lit
      JIEDA, lit FENXI, lit XIANGJIE], Atom (ALit RBR)], seqs [Atom (ALit NL), star ws, plus
      digit, star ws, Atom (ASet [CChar 0x2E, CChar 0x3001, CChar 0xFF0E]), star ws, Atom
      (ALit LBR)], Eol])],
     seqs [lit ([LBR] @ DA_AN @ JIEXI @ [RBR]), star ws, Grp 1 (lazy_plus (ASet [CSpace,
      CNotSpace])), Look (alts [seqs [Atom (ALit LBR), alts [lit (ZHENGQUE @ DA_AN), lit
      DA_AN], Atom (ALit RBR)], seqs [Atom (ALit NL), star ws, plus digit, star ws, Atom (ASet
      [CChar 0x2E, CChar 0x3001, CChar 0xFF0E]), star ws, Atom (ALit LBR)], Eol])],
     seqs [alts [lit JIEXI, lit JIEDA, lit FENXI, lit XIANGJIE, lit (DA_AN @ JIEXI)], star
      ws, Atom (ASet [CChar 0xFF1A, CChar 0x3A]), star ws, Grp 1 (lazy_plus (ASet [CSpace,
      CNotSpace])), Look (alts [seqs [Atom (ALit NL), star ws, plus digit, star ws, Atom (ASet
      [CChar 0x2E, CChar 0x3001, CChar 0xFF0E]), star ws, alts [Atom (ALit LBR), Atom (ASet
      [CRange 0x41 0x5A])]], Eol])],
     seqs [Atom (ALit 0x5B), alts [lit JIEXI, lit JIEDA, lit FENXI], Atom (ALit 0x5D), star
      ws, Grp 1 (lazy_plus (ASet [CSpace, CNotSpace])), Look (alts [seqs [Atom (ALit 0x5B),
      alts [lit (ZHENGQUE @ DA_AN), lit DA_AN], Atom (ALit 0x5D)], seqs [Atom (ALit NL), star
      ws, plus digit, star ws, Atom (ASet [CChar 0x2E, CChar 0x3001, CChar 0xFF0E])], Eol])]]"

text \<open>
  The pattern of \<open>_extract_answer_section\<close>: one entry of an answer key.

  \<^verbatim>\<open>(\d+)\s*[.\u3001\uff0e]\s*\u3010(?:\u6b63\u786e\u7b54\u6848|\u7b54\u6848)\u3011\s*([A-Za-z]+)\<close>
\<close>

definition answer_entry_pattern :: regex where
  "answer_entry_pattern =
     seqs [Grp 1 (plus digit), star ws, Atom (ASet [CChar 0x2E, CChar 0x3001, CChar 0xFF0E]),
     star ws, Atom (ALit LBR), alts [lit (ZHENGQUE @ DA_AN), lit DA_AN], Atom (ALit RBR), star
     ws, Grp 2 (plus (ASet [CRange 0x41 0x5A, CRange 0x61 0x7A]))]"

text \<open>
  The number prefix that \<open>_extract_answer_section\<close> removes from a block.

  \<^verbatim>\<open>^\d+\s*[.\u3001\uff0e]\s*\<close>
\<close>

definition number_prefix_pattern :: regex where
  "number_prefix_pattern =
     seqs [Bol, plus digit, star ws, Atom (ASet [CChar 0x2E, CChar 0x3001, CChar 0xFF0E]),
     star ws]"

text \<open>
  The guard of \<open>_convert_chinese_number\<close>.

  \<^verbatim>\<open>^[\u4e00\u4e8c\u4e09\u56db\u4e94\u516d\u4e03\u516b\u4e5d\u5341\u767e]+$\<close>
\<close>

definition chinese_numeral_pattern :: regex where
  "chinese_numeral_pattern =
     seqs [Bol, plus (ASet NUMERALS), Eol]"

text \<open>
  The option patterns of \<open>_extract_options_by_pattern\<close>: upper-case letters, lower-case letters, circled digits.

  \<^verbatim>\<open>(?:^|\n)\s*[\uff08\(]?([A-Z])[\uff09\)]?\s*[.\u3001\)\uff09:\uff1a]?\s*(.+?)(?=(?:\n\s*[\uff08\(]?[A-Z][\uff09\)]?\s*[.\u3001\)\uff09:\uff1a]\s)|(?:^|\n)\s*(?:\u7b54\u6848|\u6b63\u786e\u7b54\u6848|\u53c2\u8003\u7b54\u6848|\u3010\u7b54\u6848\u3011|\u3010\u6b63\u786e\u7b54\u6848\u3011|\u3010\u53c2\u8003\u7b54\u6848\u3011)|$)\<close>

  \<^verbatim>\<open>(?:^|\n)\s*[\uff08\(]?([a-z])[\uff09\)]?\s*[.\u3001\)\uff09:\uff1a]?\s*(.+?)(?=(?:\n\s*[\uff08\(]?[a-z][\uff09\)]?\s*[.\u3001\)\uff09:\uff1a]\s)|(?:^|\n)\s*(?:\u7b54\u6848|\u6b63\u786e\u7b54\u6848|\u53c2\u8003\u7b54\u6848|\u3010\u7b54\u6848\u3011|\u3010\u6b63\u786e\u7b54\u6848\u3011|\u3010\u53c2\u8003\u7b54\u6848\u3011)|$)\<close>

  \<^verbatim>\<open>(?:^|\n)\s*([\u2460\u2461\u2462\u2463\u2464\u2465\u2466\u2467\u2468\u2469])\s*(.+?)(?=(?:\n\s*[\u2460\u2461\u2462\u2463\u2464\u2465\u2466\u2467\u2468\u2469])|(?:^|\n)\s*(?:\u7b54\u6848|\u6b63\u786e\u7b54\u6848|\u53c2\u8003\u7b54\u6848|\u3010\u7b54\u6848\u3011|\u3010\u6b63\u786e\u7b54\u6848\u3011|\u3010\u53c2\u8003\u7b54\u6848\u3011)|$)\<close>
\<close>

definition option_pattern_upper :: regex where
  "option_pattern_upper =
     seqs [alts [Bol, Atom (ALit NL)], star ws, Opt (Atom (ASet [CChar 0xFF08, CChar 0x28])),
     Grp 1 (Atom (ASet [CRange 0x41 0x5A])), Opt (Atom (ASet [CChar 0xFF09, CChar 0x29])),
     star ws, Opt (Atom (ASet [CChar 0x2E, CChar 0x3001, CChar 0x29, CChar 0xFF09, CChar 0x3A,
     CChar 0xFF1A])), star ws, Grp 2 (lazy_plus AAny), Look (alts [seqs [Atom (ALit NL), star
     ws, Opt (Atom (ASet [CChar 0xFF08, CChar 0x28])), Atom (ASet [CRange 0x41 0x5A]), Opt
     (Atom (ASet [CChar 0xFF09, CChar 0x29])), star ws, Atom (ASet [CChar 0x2E, CChar 0x3001,
     CChar 0x29, CChar 0xFF09, CChar 0x3A, CChar 0xFF1A]), Atom ws], seqs [alts [Bol, Atom
     (ALit NL)], star ws, alts [lit DA_AN, lit (ZHENGQUE @ DA_AN), lit (CANKAO @ DA_AN), lit
     ([LBR] @ DA_AN @ [RBR]), lit ([LBR] @ ZHENGQUE @ DA_AN @ [RBR]), lit ([LBR] @ CANKAO @
     DA_AN @ [RBR])]], Eol])]"

definition option_pattern_lower :: regex where
  "option_pattern_lower =
     seqs [alts [Bol, Atom (ALit NL)], star ws, Opt (Atom (ASet [CChar 0xFF08, CChar 0x28])),
     Grp 1 (Atom (ASet [CRange 0x61 0x7A])), Opt (Atom (ASet [CChar 0xFF09, CChar 0x29])),
     star ws, Opt (Atom (ASet [CChar 0x2E, CChar 0x3001, CChar 0x29, CChar 0xFF09, CChar 0x3A,
     CChar 0xFF1A])), star ws, Grp 2 (lazy_plus AAny), Look (alts [seqs [Atom (ALit NL), star
     ws, Opt (Atom (ASet [CChar 0xFF08, CChar 0x28])), Atom (ASet [CRange 0x61 0x7A]), Opt
     (Atom (ASet [CChar 0xFF09, CChar 0x29])), star ws, Atom (ASet [CChar 0x2E, CChar 0x3001,
     CChar 0x29, CChar 0xFF09, CChar 0x3A, CChar 0xFF1A]), Atom ws], seqs [alts [Bol, Atom
     (ALit NL)], star ws, alts [lit DA_AN, lit (ZHENGQUE @ DA_AN), lit (CANKAO @ DA_AN), lit
     ([LBR] @ DA_AN @ [RBR]), lit ([LBR] @ ZHENGQUE @ DA_AN @ [RBR]), lit ([LBR] @ CANKAO @
     DA_AN @ [RBR])]], Eol])]"

definition option_pattern_circle :: regex where
  "option_pattern_circle =
     seqs [alts [Bol, Atom (ALit NL)], star ws, Grp 1 (Atom (ASet CIRCLED)), star ws, Grp 2
     (lazy_plus AAny), Look (alts [seqs [Atom (ALit NL), star ws, Atom (ASet CIRCLED)], seqs
     [alts [Bol, Atom (ALit NL)], star ws, alts [lit DA_AN, lit (ZHENGQUE @ DA_AN), lit
     (CANKAO @ DA_AN), lit ([LBR] @ DA_AN @ [RBR]), lit ([LBR] @ ZHENGQUE @ DA_AN @ [RBR]),
     lit ([LBR] @ CANKAO @ DA_AN @ [RBR])]], Eol])]"

text \<open>
  The answer marker that \<open>_extract_options_by_pattern\<close> cuts off an option's content.

  \<^verbatim>\<open>\n\s*(?:\u7b54\u6848|\u6b63\u786e\u7b54\u6848|\u53c2\u8003\u7b54\u6848|\u3010\u7b54\u6848\u3011|\u3010\u6b63\u786e\u7b54\u6848\u3011|\u3010\u53c2\u8003\u7b54\u6848\u3011).*$\<close>
\<close>

definition trailing_marker_pattern :: regex where
  "trailing_marker_pattern =
     seqs [Atom (ALit NL), star ws, alts [lit DA_AN, lit (ZHENGQUE @ DA_AN), lit (CANKAO @
     DA_AN), lit ([LBR] @ DA_AN @ [RBR]), lit ([LBR] @ ZHENGQUE @ DA_AN @ [RBR]), lit ([LBR] @
     CANKAO @ DA_AN @ [RBR])], star AAny, Eol]"

text \<open>
  The pattern of \<open>extract_answer\<close> for one question number, after the number
  (the source builds it with \<open>rf'{question_number}...'\<close>; see \<open>interpolate\<close> below).

  \<^verbatim>\<open>\s*[.\u3001\uff0e]\s*\u3010(?:\u6b63\u786e\u7b54\u6848|\u7b54\u6848)\u3011\s*([A-Za-z]+)\<close>
\<close>

definition specific_answer_rest :: regex where
  "specific_answer_rest =
     seqs [star ws, Atom (ASet [CChar 0x2E, CChar 0x3001, CChar 0xFF0E]), star ws, Atom (ALit
     LBR), alts [lit (ZHENGQUE @ DA_AN), lit DA_AN], Atom (ALit RBR), star ws, Grp 1 (plus
     (ASet [CRange 0x41 0x5A, CRange 0x61 0x7A]))]"

text \<open>
  The shape that \<open>extract_answer\<close> and \<open>extract_explanation\<close> count.

  \<^verbatim>\<open>\d+\s*[.\u3001\uff0e]\s*\u3010(?:\u6b63\u786e\u7b54\u6848|\u7b54\u6848)\u3011\<close>
\<close>

definition multi_answer_pattern :: regex where
  "multi_answer_pattern =
     seqs [plus digit, star ws, Atom (ASet [CChar 0x2E, CChar 0x3001, CChar 0xFF0E]), star ws,
     Atom (ALit LBR), alts [lit (ZHENGQUE @ DA_AN), lit DA_AN], Atom (ALit RBR)]"

text \<open>
  The two loose patterns of \<open>extract_answer\<close>.

  \<^verbatim>\<open>\u7b54\s*\u6848\s*[\uff1a:]*\s*([A-Za-z]+)\<close>

  \<^verbatim>\<open>(?:\u672c\u9898|\u6b64\u9898|\u8be5\u9898).*?([A-Z])\s*(?:\u9009\u9879|\u9879)?\<close>
\<close>

definition loose_patterns :: "regex list" where
  "loose_patterns =
    [seqs [Atom (ALit 0x7B54), star ws, Atom (ALit 0x6848), star ws, star (ASet [CChar
      0xFF1A, CChar 0x3A]), star ws, Grp 1 (plus (ASet [CRange 0x41 0x5A, CRange 0x61 0x7A]))],
     seqs [alts [lit BENTI, lit CITI, lit GAITI], lazy_star AAny, Grp 1 (Atom (ASet [CRange
      0x41 0x5A])), star ws, Opt (alts [lit XUANXIANG, Atom (ALit 0x9879)])]]"

text \<open>
  The pattern of \<open>extract_explanation\<close> for one question number, after the number.

  \<^verbatim>\<open>\s*[.\u3001\uff0e]\s*\u3010(?:\u6b63\u786e\u7b54\u6848|\u7b54\u6848)\u3011\s*[A-Za-z]+\s*\u3010\u7b54\u6848\u89e3\u6790\u3011\s*([\s\S]+?)(?=\n\s*\d+\s*[.\u3001\uff0e]\s*\u3010|$)\<close>
\<close>

definition specific_explanation_rest :: regex where
  "specific_explanation_rest =
     seqs [star ws, Atom (ASet [CChar 0x2E, CChar 0x3001, CChar 0xFF0E]), star ws, Atom (ALit
     LBR), alts [lit (ZHENGQUE @ DA_AN), lit DA_AN], Atom (ALit RBR), star ws, plus (ASet
     [CRange 0x41 0x5A, CRange 0x61 0x7A]), star ws, lit ([LBR] @ DA_AN @ JIEXI @ [RBR]), star
     ws, Grp 1 (lazy_plus (ASet [CSpace, CNotSpace])), Look (alts [seqs [Atom (ALit NL), star
     ws, plus digit, star ws, Atom (ASet [CChar 0x2E, CChar 0x3001, CChar 0xFF0E]), star ws,
     Atom (ALit LBR)], Eol])]"

text \<open>
  The patterns of the single-question path of \<open>extract_explanation\<close>.

  \<^verbatim>\<open>\u3010\u7b54\u6848\u89e3\u6790\u3011\s*([\s\S]+)\<close>

  \<^verbatim>\<open>\n\s*\d+\s*[.\u3001\uff0e]\s*\u3010\<close>
\<close>

definition analysis_pattern :: regex where
  "analysis_pattern =
     seqs [lit ([LBR] @ DA_AN @ JIEXI @ [RBR]), star ws, Grp 1 (plus (ASet [CSpace,
     CNotSpace]))]"

definition next_question_pattern :: regex where
  "next_question_pattern =
     seqs [Atom (ALit NL), star ws, plus digit, star ws, Atom (ASet [CChar 0x2E, CChar 0x3001,
     CChar 0xFF0E]), star ws, Atom (ALit LBR)]"

text \<open>
  The three patterns of \<open>_clean_explanation\<close>.

  \<^verbatim>\<open>\n{3,}\<close>

  \<^verbatim>\<open>\n\s*\u3010(?:\u6b63\u786e\u7b54\u6848|\u7b54\u6848)\u3011.*$\<close>

  \<^verbatim>\<open>\n\s*\d+\s*[.\u3001\uff0e].*$\<close>
\<close>

definition blank_lines_pattern :: regex where
  "blank_lines_pattern =
     Rep True 3 (ALit NL)"

definition trailing_answer_pattern :: regex where
  "trailing_answer_pattern =
     seqs [Atom (ALit NL), star ws, Atom (ALit LBR), alts [lit (ZHENGQUE @ DA_AN), lit DA_AN],
     Atom (ALit RBR), star AAny, Eol]"

definition trailing_question_pattern :: regex where
  "trailing_question_pattern =
     seqs [Atom (ALit NL), star ws, plus digit, star ws, Atom (ASet [CChar 0x2E, CChar 0x3001,
     CChar 0xFF0E]), star AAny, Eol]"

text \<open>
  The tags of \<open>identify_question_type\<close> for a multiple-choice question.

  \<^verbatim>\<open>\(\u591a\u9009\)\<close>

  \<^verbatim>\<open>\uff08\u591a\u9009\uff09\<close>

  \<^verbatim>\<open>\u3010\u591a\u9009\u9898\u3011\<close>

  \<^verbatim>\<open>\u3010\u591a\u9009\u3011\<close>

  \<^verbatim>\<open>\u53ef\u591a\u9009\<close>
\<close>

definition multiple_patterns :: "regex list" where
  "multiple_patterns =
    [lit ([0x28] @ DUOXUAN @ [0x29]),
     lit ([0xFF08] @ DUOXUAN @ [0xFF09]),
     lit ([LBR] @ DUOXUAN @ [0x9898, RBR]),
     lit ([LBR] @ DUOXUAN @ [RBR]),
     lit ([0x53EF] @ DUOXUAN)]"

text \<open>
  The tags of \<open>identify_question_type\<close> for a single-choice question.

  \<^verbatim>\<open>\(\u5355\u9009\)\<close>

  \<^verbatim>\<open>\uff08\u5355\u9009\uff09\<close>

  \<^verbatim>\<open>\u3010\u5355\u9009\u9898\u3011\<close>

  \<^verbatim>\<open>\u3010\u5355\u9009\u3011\<close>
\<close>

definition single_patterns :: "regex list" where
  "single_patterns =
    [lit ([0x28] @ DANXUAN @ [0x29]),
     lit ([0xFF08] @ DANXUAN @ [0xFF09]),
     lit ([LBR] @ DANXUAN @ [0x9898, RBR]),
     lit ([LBR] @ DANXUAN @ [RBR])]"

text \<open>
  The option starts that \<open>_extract_question_text\<close> looks for.

  \<^verbatim>\<open>(?:^|\n)\s*[\uff08\(]?[A-Z][\uff09\)]?\s*[.\u3001\)\uff09:\uff1a]?\<close>

  \<^verbatim>\<open>(?:^|\n)\s*[\uff08\(]?[a-z][\uff09\)]?\s*[.\u3001\)\uff09:\uff1a]?\<close>

  \<^verbatim>\<open>(?:^|\n)\s*[\u2460\u2461\u2462\u2463\u2464\u2465\u2466\u2467\u2468\u2469]\<close>
\<close>

definition option_patterns :: "regex list" where
  "option_patterns =
    [seqs [alts [Bol, Atom (ALit NL)], star ws, Opt (Atom (ASet [CChar 0xFF08, CChar 0x28])),
      Atom (ASet [CRange 0x41 0x5A]), Opt (Atom (ASet [CChar 0xFF09, CChar 0x29])), star ws,
      Opt (Atom (ASet [CChar 0x2E, CChar 0x3001, CChar 0x29, CChar 0xFF09, CChar 0x3A, CChar
      0xFF1A]))],
     seqs [alts [Bol, Atom (ALit NL)], star ws, Opt (Atom (ASet [CChar 0xFF08, CChar 0x28])),
      Atom (ASet [CRange 0x61 0x7A]), Opt (Atom (ASet [CChar 0xFF09, CChar 0x29])), star ws,
      Opt (Atom (ASet [CChar 0x2E, CChar 0x3001, CChar 0x29, CChar 0xFF09, CChar 0x3A, CChar
      0xFF1A]))],
     seqs [alts [Bol, Atom (ALit NL)], star ws, Atom (ASet CIRCLED)]]"

section \<open>The data model\<close>

datatype QuestionType = SINGLE_CHOICE | MULTIPLE_CHOICE | UNKNOWN

record Image =
  data :: "nat list"
  format :: ustr
  width :: int
  height :: int
  position :: int

record Option =
  label :: ustr
  content :: ustr
  images :: "Image list"

text \<open>
  A value of the type \<open>Any\<close>: what a metadata entry or a field of an update may hold.
  A dictionary is an association list with string keys, the first binding of a key
  being its value.
\<close>

datatype pyval =
    PNone
  | PBool bool
  | PInt int
  | PStr ustr
  | PList "pyval list"
  | PDict "(ustr \<times> pyval) list"
  | POption Option
  | PQuestionType QuestionType

record Question =
  qid :: ustr
  number :: ustr
  question_text :: ustr
  options :: "Option list"
  correct_answers :: "ustr list"
  question_type :: QuestionType
  explanation :: ustr
  qimages :: "Image list"
  needs_review :: bool
  selected :: bool
  metadata :: "ustr \<rightharpoonup> pyval"

text \<open>
  The exceptions of the source. \<open>ReError\<close> stands for \<open>re.error\<close>, which the source does
  not catch (see \<open>interpolate\<close>).
\<close>

datatype error = ValidationError | ReError

section \<open>The numeral normaliser\<close>

text \<open>\<open>CHINESE_TO_ARABIC\<close>, in the order of the source.\<close>

definition CHINESE_TO_ARABIC :: "(ustr \<times> ustr) list" where
  "CHINESE_TO_ARABIC =
    [([0x4E00], [0x31]), ([0x4E8C], [0x32]), ([0x4E09], [0x33]), ([0x56DB], [0x34]),
     ([0x4E94], [0x35]), ([0x516D], [0x36]), ([0x4E03], [0x37]), ([0x516B], [0x38]),
     ([0x4E5D], [0x39]), ([0x5341], [0x31, 0x30]),
     ([0x5341, 0x4E00], [0x31, 0x31]), ([0x5341, 0x4E8C], [0x31, 0x32]),
     ([0x5341, 0x4E09], [0x31, 0x33]), ([0x5341, 0x56DB], [0x31, 0x34]),
     ([0x5341, 0x4E94], [0x31, 0x35]),
     ([0x4E8C, 0x5341], [0x32, 0x30]), ([0x4E09, 0x5341], [0x33, 0x30]),
     ([0x56DB, 0x5341], [0x34, 0x30]), ([0x4E94, 0x5341], [0x35, 0x30]),
     ([0x767E], [0x31, 0x30, 0x30])]"

text \<open>
  The two tables of \<open>_parse_chinese_number\<close>: \<open>chinese_digits\<close> (zero, U+96F6, and one to
  nine) and \<open>chinese_units\<close> (ten and hundred).
\<close>

definition chinese_digits :: "uchar \<rightharpoonup> nat" where
  "chinese_digits = map_of
    [(0x96F6, 0), (0x4E00, 1), (0x4E8C, 2), (0x4E09, 3), (0x56DB, 4),
     (0x4E94, 5), (0x516D, 6), (0x4E03, 7), (0x516B, 8), (0x4E5D, 9)]"

definition chinese_units :: "uchar \<rightharpoonup> nat" where
  "chinese_units = map_of [(0x5341, 10), (0x767E, 100)]"

text \<open>
  The loop of \<open>_parse_chinese_number\<close> over the characters, on the pair
  \<open>(result, temp)\<close>. Neither number is ever negative.
\<close>

fun parse_loop :: "ustr \<Rightarrow> nat \<times> nat \<Rightarrow> nat \<times> nat" where
  "parse_loop [] (result, temp) = (result, temp)"
| "parse_loop (ch # rest) (result, temp) =
     (case chinese_digits ch of
        Some d \<Rightarrow> parse_loop rest (result, d)
      | None \<Rightarrow>
          (case chinese_units ch of
             Some u \<Rightarrow> parse_loop rest (result + (if temp = 0 then 1 else temp) * u, 0)
           | None \<Rightarrow> parse_loop rest (result, temp)))"

definition parse_chinese_number :: "ustr \<Rightarrow> nat" where
  "parse_chinese_number chinese =
     (let (result, temp) = parse_loop chinese (0, 0);
          result = result + temp
      in if result > 0 then result else 1)"

text \<open>\<open>str(n)\<close> of a natural number.\<close>

fun str_of_nat :: "nat \<Rightarrow> ustr" where
  "str_of_nat n = (if n < 10 then [0x30 + n] else str_of_nat (n div 10) @ [0x30 + n mod 10])"

declare str_of_nat.simps [simp del]

text \<open>
  \<open>_convert_chinese_number\<close>. The \<open>try\<close> around the parse has nothing to catch:
  \<open>_parse_chinese_number\<close> raises on no string.
\<close>

definition convert_chinese_number :: "ustr \<Rightarrow> ustr" where
  "convert_chinese_number num =
     (case map_of CHINESE_TO_ARABIC num of
        Some v \<Rightarrow> v
      | None \<Rightarrow>
          if re_match FL_NONE chinese_numeral_pattern num \<noteq> None
          then str_of_nat (parse_chinese_number num)
          else num)"

section \<open>Boundaries, the answer key and the segmenter\<close>

text \<open>
  The test of \<open>_find_question_boundaries\<close> on the twenty characters before a match:
  they hold an opening bracket U+3010, and no closing bracket U+3011 stands after the
  last one.
\<close>

definition is_in_marker :: "ustr \<Rightarrow> nat \<Rightarrow> bool" where
  "is_in_marker t start_pos =
     (let before_text = slice t (start_pos - 20) start_pos
      in LBR \<in> set before_text
         \<and> RBR \<notin> set (rev (takeWhile (\<lambda>c. c \<noteq> LBR) (rev before_text))))"

text \<open>The matches of one pattern that are kept, with their normalised numbers.\<close>

definition pattern_boundaries :: "ustr \<Rightarrow> regex \<Rightarrow> (ustr \<times> nat) list" where
  "pattern_boundaries t p =
     map (\<lambda>m. (convert_chinese_number (group t m 1), m_start m))
       (filter (\<lambda>m. \<not> is_in_marker t (m_start m)) (re_finditer FL_MS p t))"

text \<open>
  The de-duplication loop, on \<open>seen_numbers\<close> and \<open>last_pos\<close> (an integer: it starts
  at \<open>-100\<close>).
\<close>

fun unique_boundaries :: "(ustr \<times> nat) list \<Rightarrow> ustr list \<Rightarrow> int \<Rightarrow> (ustr \<times> nat) list" where
  "unique_boundaries [] seen_numbers last_pos = []"
| "unique_boundaries ((num, pos) # rest) seen_numbers last_pos =
     (if int pos \<ge> last_pos + 20
      then if num \<notin> set seen_numbers
           then (num, pos) # unique_boundaries rest (num # seen_numbers) (int pos)
           else unique_boundaries rest seen_numbers last_pos
      else unique_boundaries rest seen_numbers last_pos)"

text \<open>The candidates of all four patterns, sorted by position (Python's sort is stable).\<close>

definition sorted_boundaries :: "ustr \<Rightarrow> (ustr \<times> nat) list" where
  "sorted_boundaries t =
     sort_key snd (concat (map (pattern_boundaries t) QUESTION_NUMBER_PATTERNS))"

definition find_question_boundaries :: "ustr \<Rightarrow> (ustr \<times> nat) list" where
  "find_question_boundaries t = unique_boundaries (sorted_boundaries t) [] (-100)"

text \<open>
  \<open>_extract_answer_section\<close>: the loop over the matches, each block running to the start
  of the next match or to the end of the text. A later entry of a number replaces an
  earlier one.
\<close>

definition answer_block :: "ustr \<Rightarrow> nat \<Rightarrow> nat \<Rightarrow> ustr" where
  "answer_block t start_pos end_pos =
     rstrip (re_sub FL_NONE number_prefix_pattern [] (strip (slice t start_pos end_pos)) None)"

fun answer_entries :: "ustr \<Rightarrow> rmatch_obj list \<Rightarrow> (ustr \<rightharpoonup> ustr) \<Rightarrow> (ustr \<rightharpoonup> ustr)" where
  "answer_entries t [] answer_map = answer_map"
| "answer_entries t (m # ms) answer_map =
     (let end_pos = (case ms of [] \<Rightarrow> length t | m' # _ \<Rightarrow> m_start m')
      in answer_entries t ms (answer_map(group t m 1 \<mapsto> answer_block t (m_start m) end_pos)))"

definition extract_answer_section :: "ustr \<Rightarrow> (ustr \<rightharpoonup> ustr)" where
  "extract_answer_section t = answer_entries t (re_finditer FL_M answer_entry_pattern t) Map.empty"

text \<open>
  \<open>recognize_questions\<close>: the loop over the boundaries. A span runs to the next boundary
  or to the end of the text.
\<close>

definition span_text :: "ustr \<Rightarrow> nat \<Rightarrow> nat \<Rightarrow> ustr" where
  "span_text t start_pos end_pos = strip (slice t start_pos end_pos)"

definition backfill :: "(ustr \<rightharpoonup> ustr) \<Rightarrow> ustr \<Rightarrow> ustr \<Rightarrow> ustr" where
  "backfill answer_map num qtext =
     (case answer_map num of
        Some answer_info \<Rightarrow>
          if \<not> contains qtext ([LBR] @ ZHENGQUE @ DA_AN @ [RBR])
             \<and> \<not> contains qtext ([LBR] @ DA_AN @ [RBR])
          then qtext @ [NL] @ answer_info
          else qtext
      | None \<Rightarrow> qtext)"

fun split_questions :: "ustr \<Rightarrow> (ustr \<rightharpoonup> ustr) \<Rightarrow> (ustr \<times> nat) list \<Rightarrow> (ustr \<times> ustr) list" where
  "split_questions t answer_map [] = []"
| "split_questions t answer_map ((num, start_pos) # rest) =
     (let end_pos = (case rest of [] \<Rightarrow> length t | (_, next_pos) # _ \<Rightarrow> next_pos)
      in (num, backfill answer_map num (span_text t start_pos end_pos))
         # split_questions t answer_map rest)"

definition recognize_questions :: "ustr \<Rightarrow> (ustr \<times> ustr) list" where
  "recognize_questions t =
     (if blank t then []
      else let answer_map = extract_answer_section t;
               boundaries = find_question_boundaries t
           in if boundaries = [] then [] else split_questions t answer_map boundaries)"

section \<open>Options, answers and explanations\<close>

text \<open>
  The argument \<open>pattern_type\<close> of \<open>_extract_options_by_pattern\<close>: \<open>'upper'\<close>, \<open>'lower'\<close>,
  \<open>'circle'\<close>, or any other string.
\<close>

datatype pattern_type = PT_upper | PT_lower | PT_circle | PT_other

text \<open>\<open>label in label_set\<close>, the set being built from the characters of a string.\<close>

definition label_in :: "ustr \<Rightarrow> ustr \<Rightarrow> bool" where
  "label_in l chars = list_ex (\<lambda>c. l = [c]) chars"

text \<open>
  The body of the loop over the matches: what one match adds to the options, if
  anything.
\<close>

definition make_option :: "pattern_type \<Rightarrow> ustr \<Rightarrow> ustr \<Rightarrow> ustr \<Rightarrow> Option option" where
  "make_option pt label_set l c =
     (if label_in l label_set
      then let c1 = strip c;
               c2 = re_sub FL_S trailing_marker_pattern [] c1 None;
               c3 = strip c2
           in if c3 \<noteq> []
              then Some \<lparr>label =
                           (if pt = PT_upper \<or> pt = PT_lower then map upper_char l
                            else case l of
                                   [ch] \<Rightarrow> (case CIRCLE_TO_LETTER ch of Some x \<Rightarrow> [x] | None \<Rightarrow> l)
                                 | _ \<Rightarrow> l),
                         content = c3, images = []\<rparr>
              else None
      else None)"

definition options_of :: "pattern_type \<Rightarrow> regex \<Rightarrow> ustr \<Rightarrow> ustr \<Rightarrow> Option list" where
  "options_of pt p label_set t =
     List.map_filter (\<lambda>m. make_option pt label_set (group t m 1) (group t m 2))
       (re_finditer FL_MS p t)"

definition extract_options_by_pattern :: "ustr \<Rightarrow> pattern_type \<Rightarrow> Option list" where
  "extract_options_by_pattern t pt =
     (case pt of
        PT_upper \<Rightarrow>
          options_of pt option_pattern_upper [0x41, 0x42, 0x43, 0x44, 0x45, 0x46, 0x47, 0x48, 0x49, 0x4A] t
      | PT_lower \<Rightarrow>
          options_of pt option_pattern_lower [0x61, 0x62, 0x63, 0x64, 0x65, 0x66, 0x67, 0x68, 0x69, 0x6A] t
      | PT_circle \<Rightarrow>
          options_of pt option_pattern_circle
            [0x2460, 0x2461, 0x2462, 0x2463, 0x2464, 0x2465, 0x2466, 0x2467, 0x2468, 0x2469] t
      | PT_other \<Rightarrow> [])"

definition extract_options :: "ustr \<Rightarrow> Option list" where
  "extract_options t =
     (if blank t then []
      else let opts = extract_options_by_pattern t PT_upper in
        if opts \<noteq> [] then opts
        else let opts = extract_options_by_pattern t PT_lower in
          if opts \<noteq> [] then opts
          else let opts = extract_options_by_pattern t PT_circle in
            if opts \<noteq> [] then opts else [])"

text \<open>
  The source splices the question number into a pattern as it is, without \<open>re.escape\<close>.
  When the number holds none of the special characters
  \<^verbatim>\<open>. ^ $ * + ? { } [ ] \ | ( )\<close>
  the pattern is the number, read literally, followed by the rest. A number that holds
  one lies outside the fragment modelled here: Python then raises \<open>re.error\<close> or reads
  the number as a pattern of its own. The model answers \<open>ReError\<close> for every such number,
  so it fails at least where the source fails.
\<close>

definition is_meta :: "uchar \<Rightarrow> bool" where
  "is_meta c = (c \<in> set [0x2E, 0x5E, 0x24, 0x2A, 0x2B, 0x3F, 0x7B, 0x7D, 0x5B, 0x5D,
                           0x5C, 0x7C, 0x28, 0x29])"

definition interpolate :: "ustr \<Rightarrow> regex \<Rightarrow> error + regex" where
  "interpolate num rest =
     (if list_all (\<lambda>c. \<not> is_meta c) num then Inr (Seq (lit num) rest) else Inl ReError)"

text \<open>
  A loop over a list of patterns that returns the first non-empty parse of group 1, used
  twice by \<open>extract_answer\<close>; the empty list stands for "no pattern gave an answer".
\<close>

fun first_answer :: "flags \<Rightarrow> regex list \<Rightarrow> ustr \<Rightarrow> ustr list" where
  "first_answer fl [] t = []"
| "first_answer fl (p # ps) t =
     (case re_search fl p t of
        Some m \<Rightarrow>
          (let answers = parse_answer_string (group t m 1)
           in if answers \<noteq> [] then answers else first_answer fl ps t)
      | None \<Rightarrow> first_answer fl ps t)"

text \<open>The first step of \<open>extract_answer\<close>: the pattern for the given number.\<close>

definition specific_answer :: "ustr \<Rightarrow> ustr \<Rightarrow> error + ustr list" where
  "specific_answer t question_number =
     (if question_number = [] then Inr []
      else case interpolate question_number specific_answer_rest of
             Inl e \<Rightarrow> Inl e
           | Inr p \<Rightarrow>
               (case re_search FL_M p t of
                  Some m \<Rightarrow> Inr (parse_answer_string (group t m 1))
                | None \<Rightarrow> Inr []))"

definition has_multiple_answers :: "ustr \<Rightarrow> bool" where
  "has_multiple_answers t = (length (re_finditer FL_NONE multi_answer_pattern t) > 1)"

definition extract_answer :: "ustr \<Rightarrow> ustr \<Rightarrow> error + ustr list" where
  "extract_answer t question_number =
     (if blank t then Inr []
      else case specific_answer t question_number of
             Inl e \<Rightarrow> Inl e
           | Inr answers \<Rightarrow>
               if answers \<noteq> [] then Inr answers
               else let answers =
                          (if has_multiple_answers t \<and> question_number \<noteq> [] then []
                           else first_answer FL_IM ANSWER_PATTERNS t)
                    in if answers \<noteq> [] then Inr answers
                       else Inr (first_answer FL_I loose_patterns t))"

definition clean_explanation :: "ustr \<Rightarrow> ustr" where
  "clean_explanation e =
     (if e = [] then []
      else let e1 = re_sub FL_NONE blank_lines_pattern [NL, NL] e None;
               e2 = re_sub FL_S trailing_answer_pattern [] e1 None;
               e3 = re_sub FL_S trailing_question_pattern [] e2 None
           in strip e3)"

definition specific_explanation :: "ustr \<Rightarrow> ustr \<Rightarrow> error + ustr" where
  "specific_explanation t question_number =
     (if question_number = [] then Inr []
      else case interpolate question_number specific_explanation_rest of
             Inl e \<Rightarrow> Inl e
           | Inr p \<Rightarrow>
               (case re_search FL_M p t of
                  Some m \<Rightarrow> Inr (clean_explanation (strip (group t m 1)))
                | None \<Rightarrow> Inr []))"

definition analysis_explanation :: "ustr \<Rightarrow> ustr" where
  "analysis_explanation t =
     (case re_search FL_M analysis_pattern t of
        Some m \<Rightarrow>
          (let e = strip (group t m 1);
               e' = (case re_search FL_NONE next_question_pattern e of
                       Some next_q \<Rightarrow> strip (take (m_start next_q) e)
                     | None \<Rightarrow> e)
           in clean_explanation e')
      | None \<Rightarrow> [])"

fun first_explanation :: "flags \<Rightarrow> regex list \<Rightarrow> ustr \<Rightarrow> ustr" where
  "first_explanation fl [] t = []"
| "first_explanation fl (p # ps) t =
     (case re_search fl p t of
        Some m \<Rightarrow>
          (let e = clean_explanation (strip (group t m 1))
           in if e \<noteq> [] then e else first_explanation fl ps t)
      | None \<Rightarrow> first_explanation fl ps t)"

definition extract_explanation :: "ustr \<Rightarrow> ustr \<Rightarrow> error + ustr" where
  "extract_explanation t question_number =
     (if blank t then Inr []
      else case specific_explanation t question_number of
             Inl e \<Rightarrow> Inl e
           | Inr e \<Rightarrow>
               if e \<noteq> [] then Inr e
               else if has_multiple_answers t \<and> question_number \<noteq> [] then Inr []
               else let e = analysis_explanation t
                    in if e \<noteq> [] then Inr e
                       else Inr (first_explanation FL_IM EXPLANATION_PATTERNS t))"

section \<open>The type classifier and the assembler\<close>

definition identify_question_type :: "Question \<Rightarrow> ustr \<Rightarrow> QuestionType" where
  "identify_question_type q text_block =
     (if correct_answers q \<noteq> [] \<and> length (correct_answers q) = 1 then SINGLE_CHOICE
      else if correct_answers q \<noteq> [] \<and> length (correct_answers q) > 1 then MULTIPLE_CHOICE
      else if list_ex (\<lambda>p. re_search FL_I p (question_text q) \<noteq> None) multiple_patterns
        then MULTIPLE_CHOICE
      else if list_ex (\<lambda>p. re_search FL_I p (question_text q) \<noteq> None) single_patterns
        then SINGLE_CHOICE
      else UNKNOWN)"

text \<open>\<open>_extract_question_number\<close>: the first pattern that matches decides.\<close>

fun first_number :: "regex list \<Rightarrow> ustr \<Rightarrow> ustr" where
  "first_number [] t = []"
| "first_number (p # ps) t =
     (case re_search FL_M p t of
        Some m \<Rightarrow> convert_chinese_number (group t m 1)
      | None \<Rightarrow> first_number ps t)"

definition extract_question_number :: "ustr \<Rightarrow> ustr" where
  "extract_question_number t = first_number QUESTION_NUMBER_PATTERNS t"

text \<open>
  \<open>_extract_question_text\<close>: the text before the earliest option start, without its
  number prefix.
\<close>

fun first_option_pos :: "regex list \<Rightarrow> ustr \<Rightarrow> nat \<Rightarrow> nat" where
  "first_option_pos [] t pos = pos"
| "first_option_pos (p # ps) t pos =
     (case re_search FL_M p t of
        Some m \<Rightarrow> first_option_pos ps t (if m_start m < pos then m_start m else pos)
      | None \<Rightarrow> first_option_pos ps t pos)"

fun strip_numbers :: "regex list \<Rightarrow> ustr \<Rightarrow> ustr" where
  "strip_numbers [] qt = qt"
| "strip_numbers (p # ps) qt = strip_numbers ps (strip (re_sub FL_NONE p [] qt (Some 1)))"

definition extract_question_text :: "ustr \<Rightarrow> ustr" where
  "extract_question_text t =
     strip_numbers QUESTION_NUMBER_PATTERNS
       (strip (take (first_option_pos option_patterns t (length t)) t))"

text \<open>\<open>_validate_question\<close>: the flag starts false and each of four tests may set it.\<close>

definition validate_question :: "Question \<Rightarrow> Question" where
  "validate_question q =
     (let nr0 = False;
          nr1 = (if blank (question_text q) then True else nr0);
          nr2 = (if length (options q) < 2 then True else nr1);
          nr3 = (if correct_answers q = [] then True else nr2);
          nr4 = (if question_type q = UNKNOWN then True else nr3)
      in q\<lparr>needs_review := nr4\<rparr>)"

text \<open>
  \<open>parse_question\<close>. The identity comes from \<open>uuid.uuid4()\<close>; here it is an argument.
  An empty \<open>num\<close> is the default argument of the source.
\<close>

definition parse_question :: "ustr \<Rightarrow> ustr \<Rightarrow> ustr \<Rightarrow> error + Question" where
  "parse_question question_id text_block num =
     (if blank text_block then Inl ValidationError
      else let num' = (if num = [] then extract_question_number text_block else num);
               qtext = extract_question_text text_block;
               opts = extract_options text_block
           in case extract_answer text_block num' of
                Inl e \<Rightarrow> Inl e
              | Inr answers \<Rightarrow>
                  (case extract_explanation text_block num' of
                     Inl e \<Rightarrow> Inl e
                   | Inr expl \<Rightarrow>
                       (let q = \<lparr>qid = question_id, number = num', question_text = qtext,
                                 options = opts, correct_answers = answers,
                                 question_type = UNKNOWN, explanation = expl, qimages = [],
                                 needs_review = False, selected = True,
                                 metadata = Map.empty\<rparr>;
                            q' = q\<lparr>question_type := identify_question_type q text_block\<rparr>
                        in Inr (validate_question q'))))"

section \<open>The question store\<close>

text \<open>
  \<open>QuestionManager\<close>: the dictionary of the questions by identity and the dictionary of
  their source files. An operation takes the store and returns the store it leaves
  behind, also when it raises.
\<close>

record store =
  questions :: "ustr \<rightharpoonup> Question"
  source_file_map :: "ustr \<rightharpoonup> ustr"

text \<open>
  \<open>add_question\<close>. The test \<open>not question\<close> holds of \<open>None\<close> only (a dataclass instance is
  always true), so the argument is an optional question.
\<close>

definition add_question :: "store \<Rightarrow> Question option \<Rightarrow> ustr \<Rightarrow> store \<times> (error + ustr)" where
  "add_question st question source_file =
     (case question of
        None \<Rightarrow> (st, Inl ValidationError)
      | Some q \<Rightarrow>
          if qid q = [] then (st, Inl ValidationError)
          else if qid q \<in> dom (questions st) then (st, Inl ValidationError)
          else let st1 = st\<lparr>questions := (questions st)(qid q \<mapsto> q)\<rparr>;
                   st2 = (if source_file \<noteq> []
                          then st1\<lparr>source_file_map := (source_file_map st1)(qid q \<mapsto> source_file)\<rparr>
                          else st1)
               in (st2, Inr (qid q)))"

definition remove_question :: "store \<Rightarrow> ustr \<Rightarrow> store \<times> bool" where
  "remove_question st question_id =
     (if question_id \<notin> dom (questions st) then (st, False)
      else let st1 = st\<lparr>questions := (questions st)(question_id := None)\<rparr>;
               st2 = (if question_id \<in> dom (source_file_map st1)
                      then st1\<lparr>source_file_map := (source_file_map st1)(question_id := None)\<rparr>
                      else st1)
           in (st2, True))"

text \<open>
  The dictionary \<open>updates\<close> of \<open>update_question\<close>, from field names to values of any type,
  and the \<open>isinstance\<close> tests of \<open>_validate_updates\<close>.
\<close>

type_synonym updates = "string \<rightharpoonup> pyval"

fun is_str :: "pyval \<Rightarrow> bool" where
  "is_str (PStr _) = True"
| "is_str _ = False"

fun is_option :: "pyval \<Rightarrow> bool" where
  "is_option (POption _) = True"
| "is_option _ = False"

fun is_list_of :: "(pyval \<Rightarrow> bool) \<Rightarrow> pyval \<Rightarrow> bool" where
  "is_list_of elem (PList vs) = list_all elem vs"
| "is_list_of elem _ = False"

fun is_question_type :: "pyval \<Rightarrow> bool" where
  "is_question_type (PQuestionType _) = True"
| "is_question_type _ = False"

fun is_bool :: "pyval \<Rightarrow> bool" where
  "is_bool (PBool _) = True"
| "is_bool _ = False"

fun is_dict :: "pyval \<Rightarrow> bool" where
  "is_dict (PDict _) = True"
| "is_dict _ = False"

text \<open>A field of the update fails its test: it is present and not of the right shape.\<close>

definition bad_field :: "updates \<Rightarrow> string \<Rightarrow> (pyval \<Rightarrow> bool) \<Rightarrow> bool" where
  "bad_field u k ok = (case u k of Some v \<Rightarrow> \<not> ok v | None \<Rightarrow> False)"

definition validate_updates :: "updates \<Rightarrow> error + unit" where
  "validate_updates u =
     (if u = Map.empty then Inl ValidationError
      else if bad_field u ''question_text'' is_str then Inl ValidationError
      else if bad_field u ''options'' (is_list_of is_option) then Inl ValidationError
      else if bad_field u ''correct_answers'' (is_list_of is_str) then Inl ValidationError
      else if bad_field u ''question_type'' is_question_type then Inl ValidationError
      else if bad_field u ''needs_review'' is_bool then Inl ValidationError
      else if bad_field u ''metadata'' is_dict then Inl ValidationError
      else if bad_field u ''number'' is_str then Inl ValidationError
      else Inr ())"

text \<open>
  The fields that \<open>update_question\<close> hands to \<open>dataclasses.replace\<close>, one after the other.
  A value that is not of the validated shape leaves the field as it is; after
  \<open>_validate_updates\<close> there is none.
\<close>

fun strs_of :: "pyval list \<Rightarrow> ustr list" where
  "strs_of [] = []"
| "strs_of (PStr s # vs) = s # strs_of vs"
| "strs_of (_ # vs) = strs_of vs"

fun options_of_list :: "pyval list \<Rightarrow> Option list" where
  "options_of_list [] = []"
| "options_of_list (POption x # vs) = x # options_of_list vs"
| "options_of_list (_ # vs) = options_of_list vs"

definition set_question_text :: "updates \<Rightarrow> Question \<Rightarrow> Question" where
  "set_question_text u q =
     (case u ''question_text'' of Some (PStr s) \<Rightarrow> q\<lparr>question_text := s\<rparr> | _ \<Rightarrow> q)"

definition set_options :: "updates \<Rightarrow> Question \<Rightarrow> Question" where
  "set_options u q =
     (case u ''options'' of Some (PList vs) \<Rightarrow> q\<lparr>options := options_of_list vs\<rparr> | _ \<Rightarrow> q)"

definition set_correct_answers :: "updates \<Rightarrow> Question \<Rightarrow> Question" where
  "set_correct_answers u q =
     (case u ''correct_answers'' of Some (PList vs) \<Rightarrow> q\<lparr>correct_answers := strs_of vs\<rparr> | _ \<Rightarrow> q)"

definition set_question_type :: "updates \<Rightarrow> Question \<Rightarrow> Question" where
  "set_question_type u q =
     (case u ''question_type'' of Some (PQuestionType ty) \<Rightarrow> q\<lparr>question_type := ty\<rparr> | _ \<Rightarrow> q)"

definition set_needs_review :: "updates \<Rightarrow> Question \<Rightarrow> Question" where
  "set_needs_review u q =
     (case u ''needs_review'' of Some (PBool b) \<Rightarrow> q\<lparr>needs_review := b\<rparr> | _ \<Rightarrow> q)"

text \<open>
  The metadata is merged: a copy of the old dictionary, updated with the new one.
\<close>

definition set_metadata :: "updates \<Rightarrow> Question \<Rightarrow> Question" where
  "set_metadata u q =
     (case u ''metadata'' of Some (PDict kvs) \<Rightarrow> q\<lparr>metadata := metadata q ++ map_of kvs\<rparr> | _ \<Rightarrow> q)"

definition set_number :: "updates \<Rightarrow> Question \<Rightarrow> Question" where
  "set_number u q =
     (case u ''number'' of Some (PStr s) \<Rightarrow> q\<lparr>number := s\<rparr> | _ \<Rightarrow> q)"

definition replace_fields :: "updates \<Rightarrow> Question \<Rightarrow> Question" where
  "replace_fields u q =
     set_number u (set_metadata u (set_needs_review u (set_question_type u
       (set_correct_answers u (set_options u (set_question_text u q))))))"

definition auto_update_question_type :: "Question \<Rightarrow> Question" where
  "auto_update_question_type q =
     (let num_answers = length (correct_answers q);
          new_type = (if num_answers = 0 then UNKNOWN
                      else if num_answers = 1 then SINGLE_CHOICE
                      else MULTIPLE_CHOICE)
      in if question_type q \<noteq> new_type then q\<lparr>question_type := new_type\<rparr> else q)"

definition update_question :: "store \<Rightarrow> ustr \<Rightarrow> updates \<Rightarrow> store \<times> (error + Question)" where
  "update_question st question_id u =
     (case questions st question_id of
        None \<Rightarrow> (st, Inl ValidationError)
      | Some current_question \<Rightarrow>
          (case validate_updates u of
             Inl e \<Rightarrow> (st, Inl e)
           | Inr _ \<Rightarrow>
               (let updated = replace_fields u current_question;
                    updated' = (if ''correct_answers'' \<in> dom u \<and> ''question_type'' \<notin> dom u
                                then auto_update_question_type updated
                                else updated)
                in (st\<lparr>questions := (questions st)(question_id \<mapsto> updated')\<rparr>,
                    Inr updated'))))"

section \<open>The place-value reading of a numeral\<close>

text \<open>
  The numerals that the guard of the normaliser admits: one to nine, ten and hundred.
\<close>

definition is_numeral :: "uchar \<Rightarrow> bool" where
  "is_numeral c = (c \<in> set [0x4E00, 0x4E8C, 0x4E09, 0x56DB, 0x4E94, 0x516D, 0x4E03, 0x516B,
                              0x4E5D, 0x5341, 0x767E])"

text \<open>
  The place-value reading as the specification words it, for a string of such numerals:
  a unit character multiplies the digit before it, or 1 when no digit stands before it,
  and the products add up; a digit at the end counts by itself. A digit that another
  digit follows is replaced by it.
\<close>

fun place_value :: "ustr \<Rightarrow> nat" where
  "place_value [] = 0"
| "place_value [c] =
     (case chinese_units c of
        Some u \<Rightarrow> 1 * u
      | None \<Rightarrow> (case chinese_digits c of Some d \<Rightarrow> d | None \<Rightarrow> 0))"
| "place_value (c # c' # rest) =
     (case chinese_units c of
        Some u \<Rightarrow> 1 * u + place_value (c' # rest)
      | None \<Rightarrow>
          (case chinese_digits c of
             Some d \<Rightarrow>
               (case chinese_units c' of
                  Some u \<Rightarrow> d * u + place_value rest
                | None \<Rightarrow> place_value (c' # rest))
           | None \<Rightarrow> place_value (c' # rest)))"

section \<open>Notions for reasoning about the matcher\<close>

text \<open>The characters of a question number: a decimal digit or a numeral.\<close>

definition number_char :: "uchar \<Rightarrow> bool" where
  "number_char c = (is_decimal c \<or> is_numeral c)"

text \<open>
  Two notions for reasoning about the matcher. A pattern \<open>consumes\<close> only characters with
  the property \<open>Q\<close> when every match of it spans such characters only; it \<open>keeps\<close> group 1
  within \<open>Q\<close> when, started with group 1 unset or spanning characters with \<open>Q\<close>, it ends the
  same way.
\<close>

definition cap_ok :: "(uchar \<Rightarrow> bool) \<Rightarrow> ustr \<Rightarrow> caps \<Rightarrow> bool" where
  "cap_ok Q t c =
     (case c 1 of
        None \<Rightarrow> True
      | Some (a, b) \<Rightarrow> (\<forall>k. a \<le> k \<and> k < b \<and> k < length t \<longrightarrow> Q (t ! k)))"

definition consumes :: "(uchar \<Rightarrow> bool) \<Rightarrow> flags \<Rightarrow> ustr \<Rightarrow> regex \<Rightarrow> bool" where
  "consumes Q fl t r =
     (\<forall>i c j c'. (j, c') \<in> set (rmatch fl t r (i, c)) \<longrightarrow>
        (\<forall>k. i \<le> k \<and> k < j \<and> k < length t \<longrightarrow> Q (t ! k)))"

definition keeps :: "(uchar \<Rightarrow> bool) \<Rightarrow> flags \<Rightarrow> ustr \<Rightarrow> regex \<Rightarrow> bool" where
  "keeps Q fl t r =
     (\<forall>i c j c'. cap_ok Q t c \<and> (j, c') \<in> set (rmatch fl t r (i, c)) \<longrightarrow> cap_ok Q t c')"

section \<open>Example inputs\<close>

text \<open>
  The example of the specification: the question "1. What is TCP?" with the options
  \<open>A\<close> and \<open>B\<close> on their own lines and the answer marker U+3010 \<open>DA_AN\<close> U+3011 \<open>A\<close> on the
  last line; and the question record that the assembler builds from it.
\<close>

definition tcp_question :: ustr where
  "tcp_question =
     [0x31, 0x2E, 0x20, 0x4EC0, 0x4E48, 0x662F, 0x54, 0x43, 0x50, 0xFF1F, 0xA,
      0x41, 0x2E, 0x20, 0x4E00, 0x79CD, 0x534F, 0x8BAE, 0xA,
      0x42, 0x2E, 0x20, 0x4E00, 0x79CD, 0x8BED, 0x8A00, 0xA,
      0x3010, 0x7B54, 0x6848, 0x3011, 0x41]"

definition tcp_parsed :: "ustr \<Rightarrow> Question" where
  "tcp_parsed question_id =
     \<lparr>qid = question_id, number = [0x31],
      question_text = [0x4EC0, 0x4E48, 0x662F, 0x54, 0x43, 0x50, 0xFF1F],
      options = [\<lparr>label = [0x41], content = [0x4E00, 0x79CD, 0x534F, 0x8BAE], images = []\<rparr>,
                 \<lparr>label = [0x42], content = [0x4E00, 0x79CD, 0x8BED, 0x8A00], images = []\<rparr>],
      correct_answers = [[0x41]], question_type = SINGLE_CHOICE, explanation = [],
      qimages = [], needs_review = False, selected = True, metadata = Map.empty\<rparr>"

text \<open>
  A document of three lines: question 3 (twenty characters), question 4, and the answer
  key entry of question 3, \<open>3.\<close> U+3010 \<open>DA_AN\<close> U+3011 \<open>B\<close>.
\<close>

definition keyed_document :: ustr where
  "keyed_document =
     [0x33, 0x2E, 0x20, 0x61, 0x61, 0x61, 0x61, 0x61, 0x61, 0x61, 0x61, 0x61, 0x61,
      0x61, 0x61, 0x61, 0x61, 0x61, 0x61, 0x61, 0xA,
      0x34, 0x2E, 0x20, 0x62, 0xA,
      0x33, 0x2E, 0x3010, 0x7B54, 0x6848, 0x3011, 0x42]"

text \<open>
  A span that holds the answer key entries of questions 1 and 2, \<open>1.\<close> U+3010 \<open>DA_AN\<close>
  U+3011 \<open>A\<close> and \<open>2.\<close> U+3010 \<open>DA_AN\<close> U+3011 \<open>B\<close>, and a third line \<open>DA_AN\<close> \<open>C\<close>.
\<close>

definition bleeding_span :: ustr where
  "bleeding_span =
     [0x31, 0x2E, 0x3010, 0x7B54, 0x6848, 0x3011, 0x41, 0xA,
      0x32, 0x2E, 0x3010, 0x7B54, 0x6848, 0x3011, 0x42, 0xA,
      0x7B54, 0x6848, 0x43]"

text \<open>A stored question whose text carries the tag "(multiple choice)" in full-width brackets.\<close>

definition tagged_question :: Question where
  "tagged_question =
     \<lparr>qid = [0x71, 0x31], number = [0x31], question_text = [0xFF08] @ DUOXUAN @ [0xFF09, 0x51],
      options = [], correct_answers = [[0x41], [0x42]], question_type = MULTIPLE_CHOICE,
      explanation = [], qimages = [], needs_review = False, selected = True,
      metadata = [[0x6B] \<mapsto> PInt 1]\<rparr>"

definition tagged_store :: store where
  "tagged_store = \<lparr>questions = [[0x71, 0x31] \<mapsto> tagged_question], source_file_map = Map.empty\<rparr>"

section \<open>The answer-string parser: round trip\<close>

lemma letter_not_separator: "in_A_to_J c \<Longrightarrow> \<not> is_separator c"
  by (auto simp: in_A_to_J_def is_separator_def)

lemma filter_join_letters:
  assumes "\<forall>c\<in>set sep. is_separator c" and "\<forall>c\<in>set S. \<not> is_separator c"
  shows "filter (\<lambda>c. \<not> is_separator c) (join sep (map (\<lambda>c. [c]) S)) = S"
  using assms(2)
proof (induction S)
  case Nil
  then show ?case by simp
next
  case (Cons a S)
  have sep: "filter (\<lambda>c. \<not> is_separator c) sep = []"
    using assms(1) by (simp add: filter_empty_conv)
  show ?case
  proof (cases S)
    case Nil
    with Cons.prems show ?thesis by simp
  next
    case (Cons b S')
    with Cons.IH Cons.prems sep show ?thesis by simp
  qed
qed

lemma answer_letters_of_letters:
  "\<forall>c\<in>set S. in_A_to_J c \<Longrightarrow> answer_letters S = map (\<lambda>c. [c]) S"
  by (induction S) (auto simp: in_A_to_J_def upper_char_def)

lemma unique_answers_distinct:
  "distinct xs \<Longrightarrow> set xs \<inter> set seen = {} \<Longrightarrow> unique_answers seen xs = xs"
  by (induction xs arbitrary: seen) auto

text \<open>
  Claim C2. Take a duplicate-free list \<open>S\<close> of letters from \<open>A\<close> to \<open>J\<close> and write it as
  a string with any separator string made of the supported separators (U+3001, the ASCII
  comma, U+FF0C, the space; the empty separator included) between the letters. The
  answer-string parser returns exactly the letters of \<open>S\<close>, in their order.
\<close>

theorem parse_answer_string_roundtrip:
  assumes "distinct S" and "\<forall>c\<in>set S. in_A_to_J c" and "\<forall>c\<in>set sep. is_separator c"
  shows "parse_answer_string (join sep (map (\<lambda>c. [c]) S)) = map (\<lambda>c. [c]) S"
proof -
  have "\<forall>c\<in>set S. \<not> is_separator c"
    using assms(2) letter_not_separator by blast
  then have "filter (\<lambda>c. \<not> is_separator c) (join sep (map (\<lambda>c. [c]) S)) = S"
    using assms(3) filter_join_letters by blast
  moreover have "distinct (map (\<lambda>c. [c]) S)"
    using assms(1) by (simp add: distinct_map inj_on_def)
  ultimately show ?thesis
    using assms(2)
    by (simp add: parse_answer_string_def answer_letters_of_letters unique_answers_distinct)
qed

theorem parse_answer_string_roundtrip_witness:
  "distinct [0x43, 0x41, 0x4A :: nat]
   \<and> parse_answer_string ([0x43] @ [0x3001, 0x20] @ [0x41] @ [0x3001, 0x20] @ [0x4A])
       = [[0x43], [0x41], [0x4A]]"
  using parse_answer_string_roundtrip [of "[0x43, 0x41, 0x4A]" "[0x3001, 0x20]"]
  by (simp add: in_A_to_J_def is_separator_def)

section \<open>Evaluating the model on the examples\<close>

text \<open>
  The definitions that the simplifier unfolds to run the matcher on a given text.
\<close>

lemmas regex_eval = re_search_def re_finditer_def re_match_def re_sub_def match_at_def lit_def
  m_start_def m_end_def group_def slice_def amatch_def run_def is_space_def is_decimal_def
  decimal_starts_def case_class_def strip_def rstrip_def blank_def

lemma tcp_number: "extract_question_number tcp_question = [0x31]"
  by (simp add: tcp_question_def regex_eval extract_question_number_def
      QUESTION_NUMBER_PATTERNS_def QN_DIGIT_def convert_chinese_number_def
      CHINESE_TO_ARABIC_def chinese_numeral_pattern_def)

lemma tcp_text: "extract_question_text tcp_question = [0x4EC0, 0x4E48, 0x662F, 0x54, 0x43, 0x50, 0xFF1F]"
  by (simp add: tcp_question_def regex_eval extract_question_text_def option_patterns_def
      QUESTION_NUMBER_PATTERNS_def QN_DIGIT_def QN_CHINESE_def QN_PAREN_def QN_PREFIX_def)

lemma tcp_options:
  "extract_options tcp_question =
     [\<lparr>label = [0x41], content = [0x4E00, 0x79CD, 0x534F, 0x8BAE], images = []\<rparr>,
      \<lparr>label = [0x42], content = [0x4E00, 0x79CD, 0x8BED, 0x8A00], images = []\<rparr>]"
  by (simp add: tcp_question_def regex_eval extract_options_def extract_options_by_pattern_def
      options_of_def make_option_def label_in_def option_pattern_upper_def
      trailing_marker_pattern_def List.map_filter_def upper_char_def)

lemma tcp_answer: "extract_answer tcp_question [0x31] = Inr [[0x41]]"
  by (simp add: tcp_question_def regex_eval extract_answer_def specific_answer_def
      interpolate_def is_meta_def specific_answer_rest_def has_multiple_answers_def
      multi_answer_pattern_def ANSWER_PATTERNS_def parse_answer_string_def is_separator_def
      in_A_to_J_def upper_char_def)

lemma tcp_explanation: "extract_explanation tcp_question [0x31] = Inr []"
  by (simp add: tcp_question_def regex_eval extract_explanation_def specific_explanation_def
      interpolate_def is_meta_def specific_explanation_rest_def has_multiple_answers_def
      multi_answer_pattern_def analysis_explanation_def analysis_pattern_def
      EXPLANATION_PATTERNS_def)

lemma tcp_not_blank: "\<not> blank tcp_question"
  by (simp add: tcp_question_def blank_def strip_def rstrip_def is_space_def)

lemma tcp_text_not_blank: "\<not> blank [0x4EC0, 0x4E48, 0x662F, 0x54, 0x43, 0x50, 0xFF1F]"
  by (simp add: blank_def strip_def rstrip_def is_space_def)

lemma tcp_parse_given: "parse_question u tcp_question [0x31] = Inr (tcp_parsed u)"
  by (simp add: parse_question_def tcp_not_blank tcp_text tcp_options tcp_answer
      tcp_explanation identify_question_type_def validate_question_def tcp_parsed_def
      tcp_text_not_blank)

lemma tcp_parse_derived: "parse_question u tcp_question [] = Inr (tcp_parsed u)"
  by (simp add: parse_question_def tcp_not_blank tcp_number tcp_text tcp_options tcp_answer
      tcp_explanation identify_question_type_def validate_question_def tcp_parsed_def
      tcp_text_not_blank)

lemma keyed_boundaries:
  "find_question_boundaries keyed_document = [([0x33], 0), ([0x34], 20)]"
  by (simp add: keyed_document_def regex_eval find_question_boundaries_def
      sorted_boundaries_def pattern_boundaries_def is_in_marker_def QUESTION_NUMBER_PATTERNS_def
      QN_DIGIT_def QN_CHINESE_def QN_PAREN_def QN_PREFIX_def convert_chinese_number_def
      CHINESE_TO_ARABIC_def chinese_numeral_pattern_def)

lemma keyed_answer:
  "extract_answer_section keyed_document [0x33] = Some ([LBR] @ DA_AN @ [RBR, 0x42])"
  by (simp add: keyed_document_def regex_eval extract_answer_section_def
      answer_entry_pattern_def answer_block_def number_prefix_pattern_def)

lemma keyed_backfilled_answer:
  "extract_answer (take 20 keyed_document @ [NL] @ [LBR] @ DA_AN @ [RBR, 0x42]) [0x33]
     = Inr [[0x42]]"
  by (simp add: keyed_document_def regex_eval extract_answer_def specific_answer_def
      interpolate_def is_meta_def specific_answer_rest_def has_multiple_answers_def
      multi_answer_pattern_def ANSWER_PATTERNS_def parse_answer_string_def is_separator_def
      in_A_to_J_def upper_char_def)

lemma bare_number: "extract_question_number [0x3F] = []"
  by (simp add: regex_eval extract_question_number_def QUESTION_NUMBER_PATTERNS_def
      QN_DIGIT_def QN_CHINESE_def QN_PAREN_def QN_PREFIX_def)

lemma bare_parse:
  "parse_question u [0x3F] [] =
     Inr \<lparr>qid = u, number = [], question_text = [0x3F], options = [], correct_answers = [],
          question_type = UNKNOWN, explanation = [], qimages = [], needs_review = True,
          selected = True, metadata = Map.empty\<rparr>"
  by (simp add: parse_question_def bare_number regex_eval extract_question_text_def
      option_patterns_def QUESTION_NUMBER_PATTERNS_def QN_DIGIT_def QN_CHINESE_def
      QN_PAREN_def QN_PREFIX_def extract_options_def extract_options_by_pattern_def
      options_of_def make_option_def label_in_def option_pattern_upper_def
      option_pattern_lower_def option_pattern_circle_def List.map_filter_def
      extract_answer_def specific_answer_def has_multiple_answers_def
      multi_answer_pattern_def ANSWER_PATTERNS_def loose_patterns_def
      extract_explanation_def specific_explanation_def analysis_explanation_def
      analysis_pattern_def EXPLANATION_PATTERNS_def identify_question_type_def
      multiple_patterns_def single_patterns_def validate_question_def)

section \<open>The numeral normaliser\<close>

lemma amatch_numerals: "amatch FL_NONE (ASet NUMERALS) = is_numeral"
  by (rule ext) (auto simp: amatch_def is_numeral_def)

lemma is_decimal_bounds:
  "is_decimal c \<Longrightarrow> (0x30 \<le> c \<and> c \<le> 0x39) \<or> (0x660 \<le> c \<and> c \<le> 0x1C59) \<or> 0xA620 \<le> c"
  unfolding is_decimal_def decimal_starts_def list_ex_Cons_iff list_ex_Nil_iff
  by (elim disjE; simp)

lemma numeral_not_decimal: "is_numeral c \<Longrightarrow> \<not> is_decimal c"
  using is_decimal_bounds [of c] by (auto simp: is_numeral_def)

lemma guard_rejects_decimal:
  assumes "list_all is_decimal s"
  shows "re_match FL_NONE chinese_numeral_pattern s = None"
proof -
  have "takeWhile is_numeral s = []"
    using assms numeral_not_decimal by (cases s) auto
  then show ?thesis
    by (simp add: re_match_def match_at_def chinese_numeral_pattern_def run_def amatch_numerals)
qed

lemma table_key_numeral:
  assumes "map_of CHINESE_TO_ARABIC s = Some v"
  shows "s \<noteq> [] \<and> is_numeral (hd s)"
proof -
  from assms have "(s, v) \<in> set CHINESE_TO_ARABIC"
    by (rule map_of_SomeD)
  then show ?thesis
    by (auto simp: CHINESE_TO_ARABIC_def is_numeral_def)
qed

lemma table_keys_not_decimal:
  assumes "list_all is_decimal s"
  shows "map_of CHINESE_TO_ARABIC s = None"
proof (cases "map_of CHINESE_TO_ARABIC s")
  case None
  then show ?thesis .
next
  case (Some v)
  then have "s \<noteq> []" and "is_numeral (hd s)"
    using table_key_numeral by blast+
  with assms numeral_not_decimal show ?thesis
    by (cases s) auto
qed

lemma unit_not_digit: "chinese_units x = Some u \<Longrightarrow> chinese_digits x = None"
  by (auto simp: chinese_digits_def chinese_units_def split: if_splits)

lemma parse_loop_unit:
  "chinese_units c = Some u \<Longrightarrow>
     parse_loop (c # xs) (r, t) = parse_loop xs (r + (if t = 0 then 1 else t) * u, 0)"
  by (simp add: unit_not_digit)

lemma parse_loop_digit:
  "chinese_digits c = Some d \<Longrightarrow> parse_loop (c # xs) (r, t) = parse_loop xs (r, d)"
  by simp

lemma parse_loop_skip:
  "chinese_digits c = None \<Longrightarrow> chinese_units c = None \<Longrightarrow>
     parse_loop (c # xs) (r, t) = parse_loop xs (r, t)"
  by simp

lemma numeral_cases:
  assumes "is_numeral c"
  obtains (unit) u where "chinese_units c = Some u" "chinese_digits c = None" "u > 0"
    | (dig) d where "chinese_units c = None" "chinese_digits c = Some d" "d > 0"
  using assms by (auto simp: is_numeral_def chinese_digits_def chinese_units_def)

lemma parse_loop_place_value:
  "list_all is_numeral s \<Longrightarrow>
     (case parse_loop s (r, 0) of (res, tmp) \<Rightarrow> res + tmp) = r + place_value s"
proof (induction s arbitrary: r rule: place_value.induct)
  case 1
  then show ?case by simp
next
  case (2 c)
  then have "is_numeral c" by simp
  then show ?case by (cases rule: numeral_cases) simp_all
next
  case (3 c c' rest)
  from "3.prems" have nc: "is_numeral c" and nc': "is_numeral c'"
    and nrest: "list_all is_numeral rest" and ntl: "list_all is_numeral (c' # rest)"
    by simp_all
  from nc show ?case
  proof (cases rule: numeral_cases)
    case (unit u)
    have ih: "(case parse_loop (c' # rest) (r + u, 0) of (a, b) \<Rightarrow> a + b)
                = r + u + place_value (c' # rest)"
      using "3.IH" unit(1) ntl by blast
    from ih unit show ?thesis
      by (simp only: parse_loop_unit [OF unit(1)] place_value.simps option.case) simp
  next
    case (dig d)
    from nc' show ?thesis
    proof (cases rule: numeral_cases)
      case (unit u)
      have step: "parse_loop (c # c' # rest) (r, 0) = parse_loop rest (r + d * u, 0)"
        using dig(3)
        by (simp only: parse_loop_digit [OF dig(2)] parse_loop_unit [OF unit(1)]) simp
      have ih: "(case parse_loop rest (r + d * u, 0) of (a, b) \<Rightarrow> a + b)
                  = r + d * u + place_value rest"
        using "3.IH" dig(1,2) unit(1) nrest by blast
      from ih dig unit show ?thesis
        by (simp only: step place_value.simps option.case)
    next
      case (dig d')
      have step: "parse_loop (c # c' # rest) (r, 0) = parse_loop (c' # rest) (r, 0)"
        by (simp only: parse_loop_digit [OF \<open>chinese_digits c = Some d\<close>]
                       parse_loop_digit [OF dig(2)])
      have ih: "(case parse_loop (c' # rest) (r, 0) of (a, b) \<Rightarrow> a + b)
                  = r + place_value (c' # rest)"
        using "3.IH" \<open>chinese_units c = None\<close> \<open>chinese_digits c = Some d\<close> dig(1) ntl by blast
      from ih \<open>chinese_units c = None\<close> \<open>chinese_digits c = Some d\<close> dig show ?thesis
        by (simp only: step place_value.simps option.case)
    qed
  qed
qed

lemma place_value_numerals_pos:
  "s \<noteq> [] \<Longrightarrow> list_all is_numeral s \<Longrightarrow> place_value s > 0"
proof (induction s rule: place_value.induct)
  case 1
  then show ?case by simp
next
  case (2 c)
  then have "is_numeral c" by simp
  then show ?case by (cases rule: numeral_cases) simp_all
next
  case (3 c c' rest)
  from "3.prems" have nc: "is_numeral c" and nc': "is_numeral c'"
    and ntl: "list_all is_numeral (c' # rest)"
    by simp_all
  from nc show ?case
  proof (cases rule: numeral_cases)
    case (unit u)
    then show ?thesis by simp
  next
    case (dig d)
    from nc' show ?thesis
    proof (cases rule: numeral_cases)
      case (unit u)
      with dig show ?thesis by simp
    next
      case (dig d')
      have "place_value (c' # rest) > 0"
        using "3.IH" \<open>chinese_units c = None\<close> \<open>chinese_digits c = Some d\<close> dig(1) ntl by blast
      with \<open>chinese_units c = None\<close> \<open>chinese_digits c = Some d\<close> dig show ?thesis by simp
    qed
  qed
qed

lemma parse_chinese_number_place_value:
  assumes "s \<noteq> []" and "list_all is_numeral s"
  shows "parse_chinese_number s = place_value s"
  using parse_loop_place_value [OF assms(2), of 0] place_value_numerals_pos [OF assms]
  by (auto simp: parse_chinese_number_def split: prod.splits)

lemma concat_singletons_nonempty:
  "concat (map (\<lambda>k. if P k then [f k] else []) xs) \<noteq> [] \<longleftrightarrow> (\<exists>k\<in>set xs. P k)"
  by (induction xs) auto

lemma guard_iff:
  "re_match FL_NONE chinese_numeral_pattern s \<noteq> None
     \<longleftrightarrow> takeWhile is_numeral s \<noteq> []
          \<and> (dropWhile is_numeral s = [] \<or> dropWhile is_numeral s = [NL])"
proof -
  define n where "n = takeWhile is_numeral s"
  define r where "r = dropWhile is_numeral s"
  have s: "s = n @ r" by (simp add: n_def r_def)
  have nn: "\<forall>c\<in>set n. is_numeral c"
    unfolding n_def by (auto dest: set_takeWhileD)
  have hd_r: "r \<noteq> [] \<longrightarrow> \<not> is_numeral (hd r)"
    unfolding r_def by (simp add: hd_dropWhile)
  have nl: "\<not> is_numeral 0xA" by (simp add: is_numeral_def)
  have eol: "\<And>k. 1 \<le> k \<Longrightarrow> k \<le> length n \<Longrightarrow>
      (k = length s \<or> (k < length s \<and> s ! k = 0xA \<and> Suc k = length s))
        \<longleftrightarrow> k = length n \<and> (r = [] \<or> r = [NL])"
  proof -
    fix k assume k: "1 \<le> k" "k \<le> length n"
    show "(k = length s \<or> (k < length s \<and> s ! k = 0xA \<and> Suc k = length s))
        \<longleftrightarrow> k = length n \<and> (r = [] \<or> r = [NL])"
    proof (cases "k < length n")
      case True
      then have "is_numeral (s ! k)" using nn s by (simp add: nth_append)
      with nl have "s ! k \<noteq> 0xA" by metis
      with True s show ?thesis by auto
    next
      case False
      with k have kk: "k = length n" by simp
      show ?thesis
      proof (cases r)
        case Nil
        with kk s show ?thesis by simp
      next
        case (Cons a r')
        with kk s show ?thesis by (auto simp: nth_append)
      qed
    qed
  qed
  have "rmatch FL_NONE s chinese_numeral_pattern (0, Map.empty)
          = concat (map (\<lambda>k. if k = length s \<or> (k < length s \<and> s ! k = 0xA \<and> Suc k = length s)
                                then [(k, Map.empty)] else [])
                        (rev [1 ..< Suc (length n)]))"
    by (simp add: chinese_numeral_pattern_def run_def amatch_numerals n_def [symmetric] Let_def
        comp_def)
  then have "rmatch FL_NONE s chinese_numeral_pattern (0, Map.empty) \<noteq> []
          \<longleftrightarrow> (\<exists>k\<in>{1..length n}. k = length s \<or> (k < length s \<and> s ! k = 0xA \<and> Suc k = length s))"
    by (simp only: concat_singletons_nonempty) auto
  also have "\<dots> \<longleftrightarrow> (\<exists>k\<in>{1..length n}. k = length n \<and> (r = [] \<or> r = [NL]))"
    using eol by auto
  also have "\<dots> \<longleftrightarrow> n \<noteq> [] \<and> (r = [] \<or> r = [NL])"
    by (cases n) auto
  finally show ?thesis
    by (auto simp: re_match_def match_at_def n_def r_def split: list.splits)
qed

lemma table_key_all_numeral:
  assumes "map_of CHINESE_TO_ARABIC s = Some v"
  shows "list_all is_numeral s"
proof -
  from assms have "(s, v) \<in> set CHINESE_TO_ARABIC"
    by (rule map_of_SomeD)
  then show ?thesis
    by (auto simp: CHINESE_TO_ARABIC_def is_numeral_def)
qed

lemma table_entry_place_value:
  assumes "map_of CHINESE_TO_ARABIC s = Some v"
  shows "v = str_of_nat (place_value s)"
proof -
  from assms have "(s, v) \<in> set CHINESE_TO_ARABIC"
    by (rule map_of_SomeD)
  moreover have "list_all (\<lambda>(k, v). v = str_of_nat (place_value k)) CHINESE_TO_ARABIC"
    by (simp add: CHINESE_TO_ARABIC_def chinese_digits_def chinese_units_def str_of_nat.simps)
  ultimately show ?thesis
    by (auto simp: list_all_iff)
qed

lemma parse_loop_append:
  "parse_loop (a @ b) st = parse_loop b (parse_loop a st)"
  by (induction a st rule: parse_loop.induct) (auto split: option.splits)

lemma parse_chinese_number_newline:
  "parse_chinese_number (s @ [NL]) = parse_chinese_number s"
  by (simp add: parse_chinese_number_def parse_loop_append chinese_digits_def chinese_units_def
      split: prod.splits)


lemma numerals_newline_take_drop:
  "list_all is_numeral s \<Longrightarrow>
     takeWhile is_numeral (s @ [NL]) = s \<and> dropWhile is_numeral (s @ [NL]) = [NL]"
  by (simp add: list_all_iff takeWhile_append2 dropWhile_append2 is_numeral_def)

lemma convert_numerals:
  assumes "s \<noteq> []" and "list_all is_numeral s"
  shows "convert_chinese_number s = str_of_nat (place_value s)"
proof (cases "map_of CHINESE_TO_ARABIC s")
  case (Some v)
  then show ?thesis
    using table_entry_place_value [OF Some] by (simp add: convert_chinese_number_def)
next
  case None
  have tw: "takeWhile is_numeral s = s" "dropWhile is_numeral s = []"
    using assms(2) by (simp_all add: list_all_iff)
  have "re_match FL_NONE chinese_numeral_pattern s \<noteq> None"
    unfolding guard_iff tw using assms(1) by simp
  with None show ?thesis
    using parse_chinese_number_place_value [OF assms]
    by (simp add: convert_chinese_number_def)
qed

lemma convert_numerals_newline:
  assumes "s \<noteq> []" and "list_all is_numeral s"
  shows "convert_chinese_number (s @ [NL]) = str_of_nat (place_value s)"
proof -
  have "\<not> list_all is_numeral (s @ [NL])"
    by (simp add: is_numeral_def)
  then have t: "map_of CHINESE_TO_ARABIC (s @ [NL]) = None"
    using table_key_all_numeral [of "s @ [NL]"] by (cases "map_of CHINESE_TO_ARABIC (s @ [NL])") auto
  have g: "re_match FL_NONE chinese_numeral_pattern (s @ [NL]) \<noteq> None"
    using assms(1) numerals_newline_take_drop [OF assms(2)]
    by (intro guard_iff [THEN iffD2]) simp
  from t g show ?thesis
    using parse_chinese_number_place_value [OF assms]
    by (simp add: convert_chinese_number_def parse_chinese_number_newline)
qed

lemma convert_unchanged:
  assumes "takeWhile is_numeral s = []
           \<or> (dropWhile is_numeral s \<noteq> [] \<and> dropWhile is_numeral s \<noteq> [NL])"
  shows "convert_chinese_number s = s"
proof -
  have g: "re_match FL_NONE chinese_numeral_pattern s = None"
    using assms guard_iff [of s] by blast
  have t: "map_of CHINESE_TO_ARABIC s = None"
  proof (cases "map_of CHINESE_TO_ARABIC s")
    case (Some v)
    from table_key_all_numeral [OF Some] table_key_numeral [OF Some]
    have "takeWhile is_numeral s = s" "dropWhile is_numeral s = []" "s \<noteq> []"
      by (simp_all add: list_all_iff)
    with assms show ?thesis by simp
  qed simp
  from g t show ?thesis
    by (simp add: convert_chinese_number_def)
qed

lemma zero_total_no_numeral:
  assumes "\<forall>c\<in>set s. chinese_units c = None
                  \<and> (chinese_digits c = None \<or> chinese_digits c = Some 0)"
  shows "takeWhile is_numeral s = []"
proof (cases s)
  case (Cons c cs)
  then have "chinese_units c = None \<and> (chinese_digits c = None \<or> chinese_digits c = Some 0)"
    using assms by simp
  then have "\<not> is_numeral c"
    by (auto elim!: numeral_cases)
  with Cons show ?thesis by simp
qed simp

text \<open>
  Claim C9, as amended. The numeral normaliser has no failing branch, and for every
  token \<open>s\<close>: a token of decimal digits is returned unchanged; a token listed in the table
  is mapped to its table entry; a non-empty token made of the numerals one to nine, ten
  and hundred, with or without one line break after it, is rendered as the decimal string
  of its place-value reading (\<open>place_value\<close>: a unit multiplies the digit before it, or 1
  when none stands there), which is positive, and for the tokens of the table this is the
  table entry; every other token, that is one that does not begin with such a numeral, or
  in which something other than a single final line break follows the leading numerals,
  is returned unchanged; in particular a token with no unit and no non-zero digit is
  returned unchanged, and not as \<open>"1"\<close>.
\<close>

theorem numeral_normalizer:
  "(list_all is_decimal s \<longrightarrow> convert_chinese_number s = s)
   \<and> (\<forall>v. map_of CHINESE_TO_ARABIC s = Some v \<longrightarrow> convert_chinese_number s = v)
   \<and> (s \<noteq> [] \<and> list_all is_numeral s \<longrightarrow>
        convert_chinese_number s = str_of_nat (place_value s)
        \<and> convert_chinese_number (s @ [NL]) = str_of_nat (place_value s)
        \<and> place_value s > 0)
   \<and> (takeWhile is_numeral s = []
        \<or> (dropWhile is_numeral s \<noteq> [] \<and> dropWhile is_numeral s \<noteq> [NL]) \<longrightarrow>
        convert_chinese_number s = s)
   \<and> ((\<forall>c\<in>set s. chinese_units c = None
                  \<and> (chinese_digits c = None \<or> chinese_digits c = Some 0)) \<longrightarrow>
        convert_chinese_number s = s)"
proof -
  have a: "list_all is_decimal s \<longrightarrow> convert_chinese_number s = s"
    by (simp add: convert_chinese_number_def table_keys_not_decimal guard_rejects_decimal)
  have b: "\<forall>v. map_of CHINESE_TO_ARABIC s = Some v \<longrightarrow> convert_chinese_number s = v"
    by (simp add: convert_chinese_number_def)
  have c: "s \<noteq> [] \<and> list_all is_numeral s \<longrightarrow>
        convert_chinese_number s = str_of_nat (place_value s)
        \<and> convert_chinese_number (s @ [NL]) = str_of_nat (place_value s)
        \<and> place_value s > 0"
    using convert_numerals convert_numerals_newline place_value_numerals_pos by blast
  have d: "takeWhile is_numeral s = []
        \<or> (dropWhile is_numeral s \<noteq> [] \<and> dropWhile is_numeral s \<noteq> [NL]) \<longrightarrow>
        convert_chinese_number s = s"
    using convert_unchanged by blast
  have e: "(\<forall>c\<in>set s. chinese_units c = None
                  \<and> (chinese_digits c = None \<or> chinese_digits c = Some 0)) \<longrightarrow>
        convert_chinese_number s = s"
    using zero_total_no_numeral [of s] convert_unchanged [of s] by blast
  from a b c d e show ?thesis by blast
qed

theorem numeral_normalizer_witness:
  "convert_chinese_number [0x31, 0x32] = [0x31, 0x32]
   \<and> convert_chinese_number [0x5341, 0x4E8C] = [0x31, 0x32]
   \<and> convert_chinese_number [0x4E8C, 0x5341, 0x4E00] = [0x32, 0x31]
   \<and> convert_chinese_number [0x4E8C, 0x5341, 0x4E00, 0xA] = [0x32, 0x31]
   \<and> convert_chinese_number [0x4E8C, 0x78] = [0x4E8C, 0x78]
   \<and> convert_chinese_number [0x96F6, 0x96F6] = [0x96F6, 0x96F6]"
proof -
  have a: "convert_chinese_number [0x31, 0x32] = [0x31, 0x32]"
    using numeral_normalizer [of "[0x31, 0x32]"]
    by (simp add: is_decimal_def decimal_starts_def)
  have b: "convert_chinese_number [0x5341, 0x4E8C] = [0x31, 0x32]"
    using numeral_normalizer [of "[0x5341, 0x4E8C]"]
    by (simp add: CHINESE_TO_ARABIC_def)
  have c: "convert_chinese_number [0x4E8C, 0x5341, 0x4E00] = [0x32, 0x31]
           \<and> convert_chinese_number [0x4E8C, 0x5341, 0x4E00, 0xA] = [0x32, 0x31]"
    using numeral_normalizer [of "[0x4E8C, 0x5341, 0x4E00]"]
    by (simp add: is_numeral_def chinese_digits_def chinese_units_def str_of_nat.simps)
  have d: "convert_chinese_number [0x4E8C, 0x78] = [0x4E8C, 0x78]"
    using numeral_normalizer [of "[0x4E8C, 0x78]"]
    by (simp add: is_numeral_def)
  have e: "convert_chinese_number [0x96F6, 0x96F6] = [0x96F6, 0x96F6]"
    using numeral_normalizer [of "[0x96F6, 0x96F6]"]
    by (simp add: chinese_digits_def chinese_units_def)
  from a b c d e show ?thesis by simp
qed

text \<open>
  Claim C9 as stated fails: on the token "zero" (U+96F6) nothing accumulates, the
  place-value parse gives its default 1, and the normaliser returns the token itself, not
  \<open>"1"\<close>: the guard of the normaliser admits the numerals one to nine, ten and hundred
  only, so the parse is not reached.
\<close>

theorem numeral_default_unreachable_counterexample:
  "parse_loop [0x96F6] (0, 0) = (0, 0)
   \<and> parse_chinese_number [0x96F6] = 1
   \<and> str_of_nat 1 = [0x31]
   \<and> convert_chinese_number [0x96F6] = [0x96F6]
   \<and> convert_chinese_number [0x96F6] \<noteq> [0x31]"
  by (simp add: convert_chinese_number_def CHINESE_TO_ARABIC_def parse_chinese_number_def
      chinese_digits_def chinese_units_def str_of_nat.simps chinese_numeral_pattern_def
      regex_eval)

section \<open>The boundary detector\<close>

lemma unique_boundaries_subset:
  "set (unique_boundaries bs seen lastp) \<subseteq> set bs"
  by (induction bs seen lastp rule: unique_boundaries.induct) auto

lemma unique_boundaries_fresh:
  "(n, p) \<in> set (unique_boundaries bs seen lastp) \<Longrightarrow> n \<notin> set seen \<and> lastp + 20 \<le> int p"
  by (induction bs seen lastp rule: unique_boundaries.induct)
     (fastforce split: if_splits)+

lemma unique_boundaries_distinct:
  "distinct (map fst (unique_boundaries bs seen lastp))"
proof (induction bs seen lastp rule: unique_boundaries.induct)
  case (1 seen lastp)
  then show ?case by simp
next
  case (2 n p rest seen lastp)
  have "n \<notin> fst ` set (unique_boundaries rest (n # seen) (int p))"
    using unique_boundaries_fresh [of _ _ rest "n # seen" "int p"] by force
  with 2 show ?case by simp
qed

lemma unique_boundaries_gaps:
  "sorted_wrt (\<lambda>a b. snd a + 20 \<le> snd b) (unique_boundaries bs seen lastp)"
proof (induction bs seen lastp rule: unique_boundaries.induct)
  case (1 seen lastp)
  then show ?case by simp
next
  case (2 n p rest seen lastp)
  have "\<forall>b\<in>set (unique_boundaries rest (n # seen) (int p)). p + 20 \<le> snd b"
    using unique_boundaries_fresh [of _ _ rest "n # seen" "int p"] by force
  with 2 show ?case by simp
qed

lemma sorted_wrt_gap_nth:
  "sorted_wrt (\<lambda>a b. snd a + 20 \<le> snd b) xs \<Longrightarrow> Suc i < length xs \<Longrightarrow>
     snd (xs ! i) + (20::nat) \<le> snd (xs ! Suc i)"
  by (simp add: sorted_wrt_iff_nth_less)

lemma unique_boundaries_append:
  "unique_boundaries (xs @ ys) seen lastp =
     (let kept = unique_boundaries xs seen lastp
      in kept @ unique_boundaries ys (rev (map fst kept) @ seen)
                  (if kept = [] then lastp else int (snd (last kept))))"
  by (induction xs seen lastp rule: unique_boundaries.induct) (auto simp: Let_def)

lemma unique_boundaries_take:
  fixes c :: "ustr \<times> nat" and pre post :: "(ustr \<times> nat) list"
  defines "kept \<equiv> unique_boundaries pre [] (-100)"
  defines "keep \<equiv> fst c \<notin> fst ` set kept \<and> (kept = [] \<or> snd (last kept) + 20 \<le> snd c)"
  shows "take (length kept + (if keep then 1 else 0)) (unique_boundaries (pre @ c # post) [] (-100))
           = kept @ (if keep then [c] else [])"
proof -
  obtain n p where c: "c = (n, p)" by (cases c)
  let ?seen = "rev (map fst kept) @ []"
  let ?last = "if kept = [] then -100 else int (snd (last kept))"
  have app: "unique_boundaries (pre @ c # post) [] (-100)
               = kept @ unique_boundaries (c # post) ?seen ?last"
    by (simp add: unique_boundaries_append [of pre "c # post"] kept_def Let_def)
  have cond: "(int p \<ge> ?last + 20 \<and> n \<notin> set ?seen) = keep"
    by (auto simp: keep_def c)
  show ?thesis
  proof (cases keep)
    case True
    with cond have "unique_boundaries (c # post) ?seen ?last
                      = c # unique_boundaries post (n # ?seen) (int p)"
      by (simp add: c)
    with app True show ?thesis by simp
  next
    case False
    with cond have "unique_boundaries (c # post) ?seen ?last
                      = unique_boundaries post ?seen ?last"
      by (auto simp: c)
    with app False show ?thesis by simp
  qed
qed

text \<open>
  Claim C8. For every text: the candidates are sorted by offset; the boundaries returned
  are candidates, strictly increasing in offset, with pairwise distinct numbers, each at
  least 20 characters past the one before it; and the pass keeps a candidate exactly when
  its number is not among the boundaries kept so far and it lies at least 20 characters
  past the last of them (the first candidate always passes the distance test).
\<close>

theorem boundaries_deduplicated:
  "sorted (map snd (sorted_boundaries t))
   \<and> set (find_question_boundaries t) \<subseteq> set (sorted_boundaries t)
   \<and> sorted_wrt (\<lambda>a b. snd a < snd b) (find_question_boundaries t)
   \<and> distinct (map fst (find_question_boundaries t))
   \<and> (\<forall>i. Suc i < length (find_question_boundaries t) \<longrightarrow>
         snd (find_question_boundaries t ! i) + 20 \<le> snd (find_question_boundaries t ! Suc i))
   \<and> (\<forall>xs x ys. find_question_boundaries t = xs @ x # ys \<longrightarrow>
         fst x \<notin> fst ` set xs \<and> (\<forall>y\<in>set xs. snd y + 20 \<le> snd x))
   \<and> (\<forall>pre c post. sorted_boundaries t = pre @ c # post \<longrightarrow>
         (let kept = unique_boundaries pre [] (-100);
              keep = (fst c \<notin> fst ` set kept \<and> (kept = [] \<or> snd (last kept) + 20 \<le> snd c))
          in take (length kept + (if keep then 1 else 0)) (find_question_boundaries t)
               = kept @ (if keep then [c] else [])))"
proof -
  let ?bs = "find_question_boundaries t"
  have gaps: "sorted_wrt (\<lambda>a b. snd a + 20 \<le> snd b) ?bs"
    by (simp add: find_question_boundaries_def unique_boundaries_gaps)
  have dist: "distinct (map fst ?bs)"
    by (simp add: find_question_boundaries_def unique_boundaries_distinct)
  have s: "sorted (map snd (sorted_boundaries t))"
    by (simp add: sorted_boundaries_def)
  have sub: "set ?bs \<subseteq> set (sorted_boundaries t)"
    by (simp add: find_question_boundaries_def unique_boundaries_subset)
  have incr: "sorted_wrt (\<lambda>a b. snd a < snd b) ?bs"
    by (rule sorted_wrt_mono_rel [OF _ gaps]) simp
  have nth: "\<forall>i. Suc i < length ?bs \<longrightarrow> snd (?bs ! i) + 20 \<le> snd (?bs ! Suc i)"
    using gaps sorted_wrt_gap_nth by blast
  have split: "\<forall>xs x ys. ?bs = xs @ x # ys \<longrightarrow>
         fst x \<notin> fst ` set xs \<and> (\<forall>y\<in>set xs. snd y + 20 \<le> snd x)"
  proof (intro allI impI)
    fix xs x ys
    assume eq: "?bs = xs @ x # ys"
    from dist eq have "fst x \<notin> fst ` set xs" by auto
    moreover from gaps eq have "\<forall>y\<in>set xs. snd y + 20 \<le> snd x"
      by (auto simp: sorted_wrt_append)
    ultimately show "fst x \<notin> fst ` set xs \<and> (\<forall>y\<in>set xs. snd y + 20 \<le> snd x)" by simp
  qed
  have step: "\<forall>pre c post. sorted_boundaries t = pre @ c # post \<longrightarrow>
         (let kept = unique_boundaries pre [] (-100);
              keep = (fst c \<notin> fst ` set kept \<and> (kept = [] \<or> snd (last kept) + 20 \<le> snd c))
          in take (length kept + (if keep then 1 else 0)) (find_question_boundaries t)
               = kept @ (if keep then [c] else []))"
  proof (intro allI impI)
    fix pre c post
    assume eq: "sorted_boundaries t = pre @ c # post"
    show "let kept = unique_boundaries pre [] (-100);
              keep = (fst c \<notin> fst ` set kept \<and> (kept = [] \<or> snd (last kept) + 20 \<le> snd c))
          in take (length kept + (if keep then 1 else 0)) (find_question_boundaries t)
               = kept @ (if keep then [c] else [])"
      unfolding find_question_boundaries_def eq Let_def
      by (rule unique_boundaries_take)
  qed
  from s sub incr dist nth split step show ?thesis by blast
qed

theorem boundaries_deduplicated_witness:
  "find_question_boundaries keyed_document = [([0x33], 0), ([0x34], 20)]
   \<and> sorted_wrt (\<lambda>a b. snd a < snd b) (find_question_boundaries keyed_document)
   \<and> distinct (map fst (find_question_boundaries keyed_document))
   \<and> snd (find_question_boundaries keyed_document ! 0) + 20
        \<le> snd (find_question_boundaries keyed_document ! Suc 0)"
proof -
  have "Suc 0 < length (find_question_boundaries keyed_document)"
    by (simp add: keyed_boundaries)
  with boundaries_deduplicated [of keyed_document] keyed_boundaries show ?thesis
    by simp
qed

section \<open>The segmenter\<close>

lemma split_questions_nth:
  "i < length bs \<Longrightarrow>
     split_questions t am bs ! i =
       (fst (bs ! i),
        backfill am (fst (bs ! i))
          (span_text t (snd (bs ! i)) (if Suc i < length bs then snd (bs ! Suc i) else length t)))"
proof (induction bs arbitrary: i)
  case Nil
  then show ?case by simp
next
  case (Cons b bs)
  obtain n p where b: "b = (n, p)" by (cases b)
  show ?case
  proof (cases i)
    case 0
    then show ?thesis by (cases bs) (auto simp: b)
  next
    case (Suc j)
    with Cons show ?thesis by (simp add: b)
  qed
qed

lemma length_split_questions: "length (split_questions t am bs) = length bs"
  by (induction bs) (auto simp: Let_def)

text \<open>
  Claim C7. An empty or whitespace-only text, and a text without boundaries, give no
  spans. Otherwise there is one span per boundary: the trimmed slice from the boundary to
  the next one (or to the end of the text) and, when the answer key has an entry for the
  number and the trimmed slice holds neither U+3010 \<open>ZHENGQUE DA_AN\<close> U+3011 nor U+3010
  \<open>DA_AN\<close> U+3011, a line break and the text of that entry after it; in every other case
  the trimmed slice alone.
\<close>

theorem segmenter_backfill:
  "(blank t \<longrightarrow> recognize_questions t = [])
   \<and> (find_question_boundaries t = [] \<longrightarrow> recognize_questions t = [])
   \<and> (\<not> blank t \<longrightarrow> length (recognize_questions t) = length (find_question_boundaries t))
   \<and> (\<not> blank t \<and> i < length (find_question_boundaries t)
        \<and> find_question_boundaries t ! i = (num, start_pos)
        \<and> end_pos = (if Suc i < length (find_question_boundaries t)
                      then snd (find_question_boundaries t ! Suc i) else length t)
        \<longrightarrow>
        (extract_answer_section t num = Some info
         \<and> \<not> contains (strip (slice t start_pos end_pos)) ([LBR] @ ZHENGQUE @ DA_AN @ [RBR])
         \<and> \<not> contains (strip (slice t start_pos end_pos)) ([LBR] @ DA_AN @ [RBR])
         \<longrightarrow> recognize_questions t ! i
               = (num, strip (slice t start_pos end_pos) @ [NL] @ info))
        \<and> (extract_answer_section t num = None
            \<or> contains (strip (slice t start_pos end_pos)) ([LBR] @ ZHENGQUE @ DA_AN @ [RBR])
            \<or> contains (strip (slice t start_pos end_pos)) ([LBR] @ DA_AN @ [RBR])
         \<longrightarrow> recognize_questions t ! i = (num, strip (slice t start_pos end_pos))))"
proof -
  let ?bs = "find_question_boundaries t"
  let ?am = "extract_answer_section t"
  have rq: "\<not> blank t \<Longrightarrow> recognize_questions t = split_questions t ?am ?bs"
    by (cases ?bs) (simp_all add: recognize_questions_def Let_def)
  have a: "blank t \<longrightarrow> recognize_questions t = []"
    by (simp add: recognize_questions_def)
  have b: "?bs = [] \<longrightarrow> recognize_questions t = []"
    by (simp add: recognize_questions_def Let_def)
  have c: "\<not> blank t \<longrightarrow> length (recognize_questions t) = length ?bs"
    by (simp add: rq length_split_questions)
  have d: "\<not> blank t \<and> i < length ?bs \<and> ?bs ! i = (num, start_pos)
        \<and> end_pos = (if Suc i < length ?bs then snd (?bs ! Suc i) else length t)
        \<longrightarrow> recognize_questions t ! i
              = (num, backfill ?am num (strip (slice t start_pos end_pos)))"
    by (simp add: rq split_questions_nth span_text_def)
  from a b c d show ?thesis
    by (auto simp: backfill_def split: option.splits)
qed

theorem segmenter_backfill_witness:
  "\<not> blank keyed_document
   \<and> find_question_boundaries keyed_document ! 0 = ([0x33], 0)
   \<and> extract_answer_section keyed_document [0x33] = Some ([LBR] @ DA_AN @ [RBR, 0x42])
   \<and> recognize_questions keyed_document ! 0
       = ([0x33], strip (slice keyed_document 0 20) @ [NL] @ [LBR] @ DA_AN @ [RBR, 0x42])
   \<and> strip (slice keyed_document 0 20) = take 20 keyed_document
   \<and> extract_answer (snd (recognize_questions keyed_document ! 0)) [0x33] = Inr [[0x42]]
   \<and> recognize_questions [0x20, NL] = []"
proof -
  have nb: "\<not> blank keyed_document"
    by (simp add: keyed_document_def blank_def strip_def rstrip_def is_space_def)
  have sp: "strip (slice keyed_document 0 20) = take 20 keyed_document"
    by (simp add: keyed_document_def slice_def strip_def rstrip_def is_space_def)
  have nc: "\<not> contains (take 20 keyed_document) ([LBR] @ ZHENGQUE @ DA_AN @ [RBR])"
    "\<not> contains (take 20 keyed_document) ([LBR] @ DA_AN @ [RBR])"
    by (simp_all add: keyed_document_def)
  have bl: "blank [0x20, NL]"
    by (simp add: blank_def strip_def rstrip_def is_space_def)
  from segmenter_backfill [of keyed_document 0 "[0x33]" 0 20 "[LBR] @ DA_AN @ [RBR, 0x42]"]
    segmenter_backfill [of "[0x20, NL]"] nb sp nc bl keyed_boundaries keyed_answer
    keyed_backfilled_answer
  show ?thesis by simp
qed

section \<open>The review flag\<close>

lemma validate_question_needs_review:
  "needs_review (validate_question q) =
     (blank (question_text q) \<or> length (options q) < 2 \<or> correct_answers q = []
      \<or> question_type q = UNKNOWN)"
  by (simp add: validate_question_def)

lemma validate_question_fields:
  "question_text (validate_question q) = question_text q"
  "options (validate_question q) = options q"
  "correct_answers (validate_question q) = correct_answers q"
  "question_type (validate_question q) = question_type q"
  "number (validate_question q) = number q"
  by (simp_all add: validate_question_def)

lemma parse_question_Inr:
  assumes "parse_question i t n = Inr q"
  obtains q0 where "q = validate_question q0"
    and "number q0 = (if n = [] then extract_question_number t else n)"
    and "\<not> blank t"
  using assms
  by (auto simp: parse_question_def Let_def split: if_splits sum.splits)

text \<open>
  Claim C4. For every question that the assembler returns, \<open>needs_review\<close> is true exactly
  when the question text is empty or whitespace only, or there are fewer than two
  options, or the list of correct answers is empty, or the type is unknown.
\<close>

theorem needs_review_iff:
  assumes "parse_question i t n = Inr q"
  shows "needs_review q =
     (blank (question_text q) \<or> length (options q) < 2 \<or> correct_answers q = []
      \<or> question_type q = UNKNOWN)"
proof -
  from assms obtain q0 where "q = validate_question q0"
    by (rule parse_question_Inr)
  then show ?thesis
    by (simp add: validate_question_needs_review validate_question_fields)
qed

theorem needs_review_iff_witness:
  "parse_question [0x75] tcp_question [0x31] = Inr (tcp_parsed [0x75])
   \<and> needs_review (tcp_parsed [0x75]) =
       (blank (question_text (tcp_parsed [0x75])) \<or> length (options (tcp_parsed [0x75])) < 2
        \<or> correct_answers (tcp_parsed [0x75]) = []
        \<or> question_type (tcp_parsed [0x75]) = UNKNOWN)
   \<and> needs_review (tcp_parsed [0x75]) = False
   \<and> (\<exists>q. parse_question [0x75] [0x3F] [] = Inr q
            \<and> needs_review q = (blank (question_text q) \<or> length (options q) < 2
                                 \<or> correct_answers q = [] \<or> question_type q = UNKNOWN)
            \<and> needs_review q = True)"
  using needs_review_iff [OF tcp_parse_given [of "[0x75]"]] tcp_parse_given [of "[0x75]"]
    needs_review_iff [OF bare_parse [of "[0x75]"]] bare_parse [of "[0x75]"]
  by (simp add: tcp_parsed_def)

section \<open>Matches and their groups\<close>

lemma consumes_Rep:
  assumes "\<And>x. amatch fl a x \<Longrightarrow> Q x"
  shows "consumes Q fl t (Rep g mn a)"
  unfolding consumes_def
proof (intro allI impI)
  fix i c j c' k
  assume res: "(j, c') \<in> set (rmatch fl t (Rep g mn a) (i, c))"
    and k: "i \<le> k \<and> k < j \<and> k < length t"
  let ?tw = "takeWhile (amatch fl a) (drop i t)"
  from res have "j \<le> i + length ?tw"
    by (auto simp: run_def Let_def split: if_splits)
  with k have lt: "k - i < length ?tw" by auto
  then have "?tw ! (k - i) \<in> set ?tw" by simp
  then have "amatch fl a (?tw ! (k - i))" by (rule set_takeWhileD [THEN conjunct2])
  moreover have "?tw ! (k - i) = drop i t ! (k - i)"
    using lt by (rule takeWhile_nth)
  moreover have "drop i t ! (k - i) = t ! k"
    using k by simp
  ultimately show "Q (t ! k)" using assms by simp
qed

lemma consumes_Alt:
  "consumes Q fl t r \<Longrightarrow> consumes Q fl t s \<Longrightarrow> consumes Q fl t (Alt r s)"
  unfolding consumes_def rmatch.simps set_append Un_iff by blast

lemma keeps_Eps: "keeps Q fl t Eps"
  unfolding keeps_def by auto

lemma keeps_Atom: "keeps Q fl t (Atom a)"
  unfolding keeps_def by (auto split: if_splits)

lemma keeps_Bol: "keeps Q fl t Bol"
  unfolding keeps_def by (auto split: if_splits)

lemma keeps_Eol: "keeps Q fl t Eol"
  unfolding keeps_def by (auto split: if_splits)

lemma keeps_Rep: "keeps Q fl t (Rep g mn a)"
  unfolding keeps_def by (auto simp: Let_def split: if_splits)

lemma keeps_Seq:
  assumes "keeps Q fl t r" and "keeps Q fl t s"
  shows "keeps Q fl t (Seq r s)"
  unfolding keeps_def
proof (intro allI impI)
  fix i c j c'
  assume a: "cap_ok Q t c \<and> (j, c') \<in> set (rmatch fl t (Seq r s) (i, c))"
  then obtain m cm where m: "(m, cm) \<in> set (rmatch fl t r (i, c))"
    and j: "(j, c') \<in> set (rmatch fl t s (m, cm))"
    by auto
  from a m assms(1) have "cap_ok Q t cm" unfolding keeps_def by blast
  with j assms(2) show "cap_ok Q t c'" unfolding keeps_def by blast
qed

lemma keeps_Alt:
  "keeps Q fl t r \<Longrightarrow> keeps Q fl t s \<Longrightarrow> keeps Q fl t (Alt r s)"
  unfolding keeps_def rmatch.simps set_append Un_iff by blast

lemma keeps_Opt: "keeps Q fl t r \<Longrightarrow> keeps Q fl t (Opt r)"
  unfolding keeps_def rmatch.simps set_append Un_iff by auto

lemma keeps_Grp1:
  assumes "consumes Q fl t r"
  shows "keeps Q fl t (Grp 1 r)"
  unfolding keeps_def
proof (intro allI impI)
  fix i c j c'
  assume a: "cap_ok Q t c \<and> (j, c') \<in> set (rmatch fl t (Grp 1 r) (i, c))"
  then obtain c0 where r: "(j, c0) \<in> set (rmatch fl t r (i, c))" and c': "c' = c0(1 \<mapsto> (i, j))"
    by auto
  from r assms have "\<forall>k. i \<le> k \<and> k < j \<and> k < length t \<longrightarrow> Q (t ! k)"
    unfolding consumes_def by blast
  then show "cap_ok Q t c'"
    by (simp add: cap_ok_def c')
qed

lemma seqs_Cons: "rs \<noteq> [] \<Longrightarrow> seqs (r # rs) = Seq r (seqs rs)"
  by (cases rs) simp_all

lemma keeps_seqs:
  "list_all (keeps Q fl t) rs \<Longrightarrow> keeps Q fl t (seqs rs)"
proof (induction rs)
  case Nil
  then show ?case by (simp add: keeps_Eps)
next
  case (Cons r rs)
  then show ?case
    by (cases rs) (simp_all add: keeps_Seq)
qed

lemma keeps_alts:
  "list_all (keeps Q fl t) rs \<Longrightarrow> keeps Q fl t (alts rs)"
proof (induction rs)
  case Nil
  then show ?case by (simp add: keeps_Eps)
next
  case (Cons r rs)
  then show ?case
    by (cases rs) (simp_all add: keeps_Alt)
qed

lemma search_from_match:
  "search_from fl r t s = Some m \<Longrightarrow> \<exists>s'. match_at fl r t s' = Some m"
proof (induction fl r t s rule: search_from.induct)
  case (1 fl r t s)
  show ?case
  proof (cases "length t < s")
    case True
    with "1.prems" show ?thesis by (simp add: search_from.simps [of fl r t s])
  next
    case False
    show ?thesis
    proof (cases "match_at fl r t s")
      case None
      with False "1.prems" have "search_from fl r t (Suc s) = Some m"
        by (simp add: search_from.simps [of fl r t s])
      with "1.IH" False None show ?thesis by blast
    next
      case (Some m')
      with False "1.prems" have "m' = m"
        by (simp add: search_from.simps [of fl r t s])
      with Some show ?thesis by blast
    qed
  qed
qed

lemma slice_chars:
  "x \<in> set (slice t a b) \<Longrightarrow> \<exists>k. a \<le> k \<and> k < b \<and> k < length t \<and> x = t ! k"
proof -
  assume "x \<in> set (slice t a b)"
  then obtain j where j: "j < length (take (b - a) (drop a t))"
    and x: "x = take (b - a) (drop a t) ! j"
    by (auto simp: slice_def in_set_conv_nth)
  then have "x = t ! (a + j)" and "a + j < b" and "a + j < length t"
    by auto
  then show ?thesis by (intro exI [of _ "a + j"]) simp
qed

lemma group1_chars:
  assumes "keeps Q fl t r" and "re_search fl r t = Some m"
  shows "list_all Q (group t m 1)"
proof -
  from assms(2) obtain s where "match_at fl r t s = Some m"
    unfolding re_search_def using search_from_match by blast
  then obtain e c where m: "m = (s, e, c)" and res: "(e, c) \<in> set (rmatch fl t r (s, Map.empty))"
    by (auto simp: match_at_def split: list.splits)
  have "cap_ok Q t Map.empty" by (simp add: cap_ok_def)
  with res assms(1) have ok: "cap_ok Q t c" unfolding keeps_def by blast
  show ?thesis
  proof (cases "c 1")
    case None
    then show ?thesis by (simp add: group_def m)
  next
    case (Some ab)
    obtain a b where ab: "ab = (a, b)" by (cases ab)
    from ok Some ab have "\<forall>k. a \<le> k \<and> k < b \<and> k < length t \<longrightarrow> Q (t ! k)"
      by (simp add: cap_ok_def)
    then have "\<forall>x\<in>set (slice t a b). Q x"
      using slice_chars by blast
    with Some ab show ?thesis by (simp add: group_def m list_all_iff)
  qed
qed

section \<open>The assembler never fails on a span that is not blank\<close>

lemma keeps_number_patterns:
  "keeps number_char FL_M t QN_DIGIT"
  "keeps number_char FL_M t QN_CHINESE"
  "keeps number_char FL_M t QN_PAREN"
  "keeps number_char FL_M t QN_PREFIX"
  unfolding QN_DIGIT_def QN_CHINESE_def QN_PAREN_def QN_PREFIX_def seqs.simps alts.simps
  by (intro keeps_Seq keeps_Alt keeps_Opt keeps_Bol keeps_Atom keeps_Rep keeps_Grp1
        consumes_Rep consumes_Alt;
      simp add: amatch_def number_char_def is_numeral_def)+

lemma meta_bounds: "is_meta c \<Longrightarrow> c < 0x30 \<or> (0x39 < c \<and> c < 0x660)"
  by (auto simp: is_meta_def)

lemma number_char_plain: "number_char c \<Longrightarrow> \<not> is_meta c"
  using is_decimal_bounds [of c] meta_bounds [of c]
  by (auto simp: number_char_def is_numeral_def)

lemma str_of_nat_plain: "list_all (\<lambda>c. \<not> is_meta c) (str_of_nat n)"
proof (induction n rule: str_of_nat.induct)
  case (1 n)
  have d: "\<not> is_meta (0x30 + k)" if "k < 10" for k
    using that meta_bounds [of "0x30 + k"] by auto
  show ?case
  proof (cases "n < 10")
    case True
    with d show ?thesis by (simp add: str_of_nat.simps [of n])
  next
    case False
    with 1 d [of "n mod 10"] show ?thesis by (simp add: str_of_nat.simps [of n])
  qed
qed

lemma table_values_plain:
  assumes "map_of CHINESE_TO_ARABIC s = Some v"
  shows "list_all (\<lambda>c. \<not> is_meta c) v"
proof -
  from assms have "(s, v) \<in> set CHINESE_TO_ARABIC"
    by (rule map_of_SomeD)
  then show ?thesis
    by (auto simp: CHINESE_TO_ARABIC_def is_meta_def)
qed

lemma convert_plain:
  assumes "list_all number_char s"
  shows "list_all (\<lambda>c. \<not> is_meta c) (convert_chinese_number s)"
proof -
  have "list_all (\<lambda>c. \<not> is_meta c) s"
    using assms number_char_plain by (auto simp: list_all_iff)
  then show ?thesis
    by (auto simp: convert_chinese_number_def str_of_nat_plain table_values_plain
        split: option.splits)
qed

lemma first_number_plain:
  "list_all (keeps number_char FL_M t) ps \<Longrightarrow>
     list_all (\<lambda>c. \<not> is_meta c) (first_number ps t)"
proof (induction ps)
  case Nil
  then show ?case by simp
next
  case (Cons p ps)
  show ?case
  proof (cases "re_search FL_M p t")
    case None
    with Cons show ?thesis by simp
  next
    case (Some m)
    from Cons.prems have "keeps number_char FL_M t p" by simp
    then have "list_all number_char (group t m 1)"
      using Some by (rule group1_chars)
    with Some show ?thesis by (simp add: convert_plain)
  qed
qed

lemma extract_question_number_plain:
  "list_all (\<lambda>c. \<not> is_meta c) (extract_question_number t)"
  unfolding extract_question_number_def QUESTION_NUMBER_PATTERNS_def
  by (rule first_number_plain) (simp add: keeps_number_patterns)

lemma extract_answer_total:
  "list_all (\<lambda>c. \<not> is_meta c) n \<Longrightarrow> \<exists>a. extract_answer t n = Inr a"
  by (auto simp: extract_answer_def specific_answer_def interpolate_def Let_def
      split: option.splits)

lemma extract_explanation_total:
  "list_all (\<lambda>c. \<not> is_meta c) n \<Longrightarrow> \<exists>e. extract_explanation t n = Inr e"
  by (auto simp: extract_explanation_def specific_explanation_def interpolate_def Let_def
      split: option.splits)

lemma parse_question_total:
  assumes "\<not> blank t"
    and "list_all (\<lambda>c. \<not> is_meta c) (if n = [] then extract_question_number t else n)"
  shows "\<exists>q. parse_question i t n = Inr q
             \<and> number q = (if n = [] then extract_question_number t else n)"
proof -
  let ?n = "if n = [] then extract_question_number t else n"
  from assms(2) obtain a where a: "extract_answer t ?n = Inr a"
    using extract_answer_total by blast
  from assms(2) obtain e where e: "extract_explanation t ?n = Inr e"
    using extract_explanation_total by blast
  from assms(1) a e show ?thesis
    by (simp add: parse_question_def Let_def validate_question_def)
qed

lemma decimal_plain: "list_all is_decimal n \<Longrightarrow> list_all (\<lambda>c. \<not> is_meta c) n"
  using number_char_plain by (auto simp: list_all_iff number_char_def)

text \<open>
  Claim C3. The assembler fails with \<open>ValidationError\<close> on every empty or whitespace-only
  span. On every other span it returns a question, whether the number is a string of
  decimal digits or is left out (the empty string): no other failure is possible.
\<close>

theorem parse_question_raises_iff_blank:
  "(blank t \<longrightarrow> parse_question i t n = Inl ValidationError)
   \<and> (\<not> blank t \<and> list_all is_decimal n \<longrightarrow> (\<exists>q. parse_question i t n = Inr q))"
proof -
  have a: "blank t \<longrightarrow> parse_question i t n = Inl ValidationError"
    by (simp add: parse_question_def)
  have b: "\<not> blank t \<and> list_all is_decimal n \<longrightarrow> (\<exists>q. parse_question i t n = Inr q)"
  proof
    assume h: "\<not> blank t \<and> list_all is_decimal n"
    then have "list_all (\<lambda>c. \<not> is_meta c) (if n = [] then extract_question_number t else n)"
      using decimal_plain extract_question_number_plain by simp
    with h show "\<exists>q. parse_question i t n = Inr q"
      using parse_question_total by blast
  qed
  from a b show ?thesis by simp
qed

theorem parse_question_raises_iff_blank_witness:
  "blank [0x20, NL]
   \<and> parse_question [0x75] [0x20, NL] [0x31] = Inl ValidationError
   \<and> \<not> blank tcp_question
   \<and> list_all is_decimal [0x31]
   \<and> (\<exists>q. parse_question [0x75] tcp_question [0x31] = Inr q)"
proof -
  have bl: "blank [0x20, NL]"
    by (simp add: blank_def strip_def rstrip_def is_space_def)
  have dec: "list_all is_decimal [0x31]"
    by (simp add: is_decimal_def decimal_starts_def)
  from parse_question_raises_iff_blank [of "[0x20, NL]" "[0x75]" "[0x31]"]
    parse_question_raises_iff_blank [of tcp_question "[0x75]" "[0x31]"]
    bl dec tcp_not_blank
  show ?thesis by simp
qed

text \<open>
  Claim C10. Called without a number on a span that is not blank, the assembler returns
  a question whose number comes from the span: the four question-number patterns are
  tried in their order, the first one that matches gives its group 1 to the numeral
  normaliser, and when none matches the number is the empty string.
\<close>

theorem parse_question_derives_number:
  assumes "\<not> blank t"
  shows "\<exists>q. parse_question i t [] = Inr q
           \<and> number q =
               (case re_search FL_M QN_DIGIT t of
                  Some m \<Rightarrow> convert_chinese_number (group t m 1)
                | None \<Rightarrow>
                 (case re_search FL_M QN_CHINESE t of
                    Some m \<Rightarrow> convert_chinese_number (group t m 1)
                  | None \<Rightarrow>
                   (case re_search FL_M QN_PAREN t of
                      Some m \<Rightarrow> convert_chinese_number (group t m 1)
                    | None \<Rightarrow>
                     (case re_search FL_M QN_PREFIX t of
                        Some m \<Rightarrow> convert_chinese_number (group t m 1)
                      | None \<Rightarrow> []))))"
proof -
  from assms obtain q where q: "parse_question i t [] = Inr q"
    and n: "number q = extract_question_number t"
    using parse_question_total [of t "[]" i] extract_question_number_plain [of t] by auto
  from n have "number q =
               (case re_search FL_M QN_DIGIT t of
                  Some m \<Rightarrow> convert_chinese_number (group t m 1)
                | None \<Rightarrow>
                 (case re_search FL_M QN_CHINESE t of
                    Some m \<Rightarrow> convert_chinese_number (group t m 1)
                  | None \<Rightarrow>
                   (case re_search FL_M QN_PAREN t of
                      Some m \<Rightarrow> convert_chinese_number (group t m 1)
                    | None \<Rightarrow>
                     (case re_search FL_M QN_PREFIX t of
                        Some m \<Rightarrow> convert_chinese_number (group t m 1)
                      | None \<Rightarrow> []))))"
    by (simp add: extract_question_number_def QUESTION_NUMBER_PATTERNS_def split: option.splits)
  with q show ?thesis by blast
qed

theorem parse_question_derives_number_witness:
  "\<not> blank tcp_question
   \<and> (\<exists>q. parse_question [0x75] tcp_question [] = Inr q \<and> number q = [0x31])
   \<and> \<not> blank [0x3F]
   \<and> re_search FL_M QN_DIGIT [0x3F] = None \<and> re_search FL_M QN_CHINESE [0x3F] = None
   \<and> re_search FL_M QN_PAREN [0x3F] = None \<and> re_search FL_M QN_PREFIX [0x3F] = None
   \<and> (\<exists>q. parse_question [0x75] [0x3F] [] = Inr q \<and> number q = [])"
proof -
  have nb: "\<not> blank [0x3F]"
    by (simp add: blank_def strip_def rstrip_def is_space_def)
  have none: "re_search FL_M QN_DIGIT [0x3F] = None" "re_search FL_M QN_CHINESE [0x3F] = None"
    "re_search FL_M QN_PAREN [0x3F] = None" "re_search FL_M QN_PREFIX [0x3F] = None"
    by (simp_all add: regex_eval QN_DIGIT_def QN_CHINESE_def QN_PAREN_def QN_PREFIX_def)
  have n: "(case re_search FL_M QN_DIGIT tcp_question of
                  Some m \<Rightarrow> convert_chinese_number (group tcp_question m 1)
                | None \<Rightarrow>
                 (case re_search FL_M QN_CHINESE tcp_question of
                    Some m \<Rightarrow> convert_chinese_number (group tcp_question m 1)
                  | None \<Rightarrow>
                   (case re_search FL_M QN_PAREN tcp_question of
                      Some m \<Rightarrow> convert_chinese_number (group tcp_question m 1)
                    | None \<Rightarrow>
                     (case re_search FL_M QN_PREFIX tcp_question of
                        Some m \<Rightarrow> convert_chinese_number (group tcp_question m 1)
                      | None \<Rightarrow> [])))) = [0x31]"
    using tcp_number
    unfolding extract_question_number_def QUESTION_NUMBER_PATTERNS_def first_number.simps .
  from parse_question_derives_number [OF tcp_not_blank, of "[0x75]"]
    parse_question_derives_number [OF nb, of "[0x75]"] n tcp_not_blank nb none
  show ?thesis by simp
qed

section \<open>The answer extractor and the loose patterns\<close>

text \<open>
  What \<open>extract_answer\<close> does when a number is given, its pattern finds no answer and the
  text holds more than one answer key entry: the twelve general patterns are skipped,
  the two loose patterns are not.
\<close>

lemma extract_answer_guarded:
  assumes "\<not> blank t" and "question_number \<noteq> []"
    and "specific_answer t question_number = Inr []" and "has_multiple_answers t"
  shows "extract_answer t question_number = Inr (first_answer FL_I loose_patterns t)"
  using assms by (simp add: extract_answer_def)

text \<open>
  Claim C1, at the span \<open>bleeding_span\<close> and the number \<open>3\<close>: the pattern for question 3
  gives no answer and the span holds two answer key entries, yet \<open>extract_answer\<close> returns
  the answer \<open>C\<close>, which the first loose pattern finds on the third line.
\<close>

theorem extract_answer_falls_through:
  "specific_answer bleeding_span [0x33] = Inr []
   \<and> has_multiple_answers bleeding_span
   \<and> extract_answer bleeding_span [0x33] = Inr [[0x43]]"
  by (simp add: bleeding_span_def regex_eval extract_answer_def specific_answer_def
      interpolate_def is_meta_def specific_answer_rest_def has_multiple_answers_def
      multi_answer_pattern_def loose_patterns_def parse_answer_string_def is_separator_def
      in_A_to_J_def upper_char_def CIRCLE_TO_LETTER_def)

section \<open>The question store\<close>

lemma strs_of_map_PStr: "strs_of (map PStr as) = as"
  by (induction as) auto

lemma setters_correct_answers:
  "correct_answers (set_question_text u q) = correct_answers q"
  "correct_answers (set_options u q) = correct_answers q"
  "correct_answers (set_question_type u q) = correct_answers q"
  "correct_answers (set_needs_review u q) = correct_answers q"
  "correct_answers (set_metadata u q) = correct_answers q"
  "correct_answers (set_number u q) = correct_answers q"
  by (simp_all add: set_number_def set_metadata_def set_needs_review_def
      set_question_type_def set_options_def set_question_text_def
      split: option.splits pyval.splits)

lemma setters_metadata:
  "metadata (set_question_text u q) = metadata q"
  "metadata (set_options u q) = metadata q"
  "metadata (set_correct_answers u q) = metadata q"
  "metadata (set_question_type u q) = metadata q"
  "metadata (set_needs_review u q) = metadata q"
  "metadata (set_number u q) = metadata q"
  by (simp_all add: set_number_def set_correct_answers_def set_needs_review_def
      set_question_type_def set_options_def set_question_text_def
      split: option.splits pyval.splits)

lemma replace_fields_answers:
  "u ''correct_answers'' = Some (PList (map PStr as)) \<Longrightarrow>
     correct_answers (replace_fields u q) = as"
  by (simp add: replace_fields_def setters_correct_answers set_correct_answers_def
      strs_of_map_PStr)

lemma replace_fields_metadata:
  "u ''metadata'' = Some (PDict kvs) \<Longrightarrow>
     metadata (replace_fields u q) = metadata q ++ map_of kvs"
  by (simp add: replace_fields_def setters_metadata set_metadata_def)

lemma auto_update_fields:
  "correct_answers (auto_update_question_type q) = correct_answers q"
  "metadata (auto_update_question_type q) = metadata q"
  "question_type (auto_update_question_type q) =
     (if length (correct_answers q) = 0 then UNKNOWN
      else if length (correct_answers q) = 1 then SINGLE_CHOICE else MULTIPLE_CHOICE)"
  by (simp_all add: auto_update_question_type_def Let_def)

lemma strs_of_is_str: "list_all is_str vs \<Longrightarrow> map PStr (strs_of vs) = vs"
proof (induction vs)
  case (Cons v vs)
  then show ?case by (cases v) auto
qed simp

lemma valid_correct_answers:
  assumes "validate_updates u = Inr ()" and "u ''correct_answers'' = Some v"
  shows "v = PList (map PStr (strs_of (case v of PList vs \<Rightarrow> vs | _ \<Rightarrow> [])))"
proof -
  from assms have "is_list_of is_str v"
    by (auto simp: validate_updates_def bad_field_def split: if_splits)
  then show ?thesis
    by (cases v) (simp_all add: strs_of_is_str)
qed

lemma valid_metadata:
  assumes "validate_updates u = Inr ()" and "u ''metadata'' = Some v"
  shows "\<exists>kvs. v = PDict kvs"
proof -
  from assms have "is_dict v"
    by (auto simp: validate_updates_def bad_field_def split: if_splits)
  then show ?thesis
    by (cases v) simp_all
qed

text \<open>
  Claim C6, as amended. For every stored question and every valid update (one that
  passes \<open>_validate_updates\<close>), the update succeeds, and the record it returns is the record
  stored under the identity, the rest of the store being as before. When the update gives
  \<open>correct_answers\<close> and no \<open>question_type\<close>, that record has the answers given and its type
  follows from their number alone (none: unknown, one: single choice, more: multiple
  choice), and the tags in the question text are not read; when the update gives
  \<open>metadata\<close>, the metadata of that record is the old dictionary overridden by the new one.
\<close>

theorem update_retypes_by_count_and_merges_metadata:
  assumes "questions st k = Some q" and "validate_updates u = Inr ()"
  shows "\<exists>q'. update_question st k u = (st\<lparr>questions := (questions st)(k \<mapsto> q')\<rparr>, Inr q')
           \<and> (''correct_answers'' \<in> dom u \<and> ''question_type'' \<notin> dom u \<longrightarrow>
                u ''correct_answers'' = Some (PList (map PStr (correct_answers q')))
                \<and> question_type q' =
                    (if length (correct_answers q') = 0 then UNKNOWN
                     else if length (correct_answers q') = 1 then SINGLE_CHOICE
                     else MULTIPLE_CHOICE))
           \<and> (''metadata'' \<in> dom u \<longrightarrow>
                (\<exists>kvs. u ''metadata'' = Some (PDict kvs)
                       \<and> metadata q' = metadata q ++ map_of kvs))"
proof -
  define q' where "q' = (if ''correct_answers'' \<in> dom u \<and> ''question_type'' \<notin> dom u
                         then auto_update_question_type (replace_fields u q)
                         else replace_fields u q)"
  have run: "update_question st k u = (st\<lparr>questions := (questions st)(k \<mapsto> q')\<rparr>, Inr q')"
    using assms by (simp add: update_question_def q'_def Let_def)
  have ans: "''correct_answers'' \<in> dom u \<and> ''question_type'' \<notin> dom u \<longrightarrow>
                u ''correct_answers'' = Some (PList (map PStr (correct_answers q')))
                \<and> question_type q' =
                    (if length (correct_answers q') = 0 then UNKNOWN
                     else if length (correct_answers q') = 1 then SINGLE_CHOICE
                     else MULTIPLE_CHOICE)"
  proof (intro impI)
    assume d: "''correct_answers'' \<in> dom u \<and> ''question_type'' \<notin> dom u"
    then obtain v where v: "u ''correct_answers'' = Some v" by auto
    from valid_correct_answers [OF assms(2) v] obtain as
      where as: "u ''correct_answers'' = Some (PList (map PStr as))"
      using v by metis
    have q: "q' = auto_update_question_type (replace_fields u q)"
      using d by (simp add: q'_def)
    have "correct_answers q' = as"
      using replace_fields_answers [of u as q] as by (simp add: q auto_update_fields)
    with as show "u ''correct_answers'' = Some (PList (map PStr (correct_answers q')))
                \<and> question_type q' =
                    (if length (correct_answers q') = 0 then UNKNOWN
                     else if length (correct_answers q') = 1 then SINGLE_CHOICE
                     else MULTIPLE_CHOICE)"
      by (simp add: q auto_update_fields)
  qed
  have meta: "''metadata'' \<in> dom u \<longrightarrow>
                (\<exists>kvs. u ''metadata'' = Some (PDict kvs)
                       \<and> metadata q' = metadata q ++ map_of kvs)"
  proof (intro impI)
    assume "''metadata'' \<in> dom u"
    then obtain v where v: "u ''metadata'' = Some v" by auto
    from valid_metadata [OF assms(2) v] obtain kvs
      where kvs: "u ''metadata'' = Some (PDict kvs)"
      using v by auto
    have "metadata q' = metadata q ++ map_of kvs"
      using replace_fields_metadata [of u kvs q] kvs by (simp add: q'_def auto_update_fields)
    with kvs show "\<exists>kvs. u ''metadata'' = Some (PDict kvs)
                       \<and> metadata q' = metadata q ++ map_of kvs"
      by blast
  qed
  from run ans meta show ?thesis by blast
qed

lemma tagged_update:
  "update_question tagged_store [0x71, 0x31] [''correct_answers'' \<mapsto> PList []]
     = (tagged_store\<lparr>questions := (questions tagged_store)([0x71, 0x31] \<mapsto>
          tagged_question\<lparr>correct_answers := [], question_type := UNKNOWN\<rparr>)\<rparr>,
        Inr (tagged_question\<lparr>correct_answers := [], question_type := UNKNOWN\<rparr>))"
  by (simp add: update_question_def tagged_store_def tagged_question_def validate_updates_def
      bad_field_def replace_fields_def set_number_def set_metadata_def set_needs_review_def
      set_question_type_def set_correct_answers_def set_options_def set_question_text_def
      auto_update_question_type_def Let_def)

theorem update_retypes_by_count_and_merges_metadata_witness:
  "validate_updates [''correct_answers'' \<mapsto> PList []] = Inr ()
   \<and> (\<exists>q'. update_question tagged_store [0x71, 0x31] [''correct_answers'' \<mapsto> PList []]
              = (tagged_store\<lparr>questions := (questions tagged_store)([0x71, 0x31] \<mapsto> q')\<rparr>,
                 Inr q')
            \<and> correct_answers q' = [] \<and> question_type q' = UNKNOWN)
   \<and> validate_updates [''metadata'' \<mapsto> PDict [([0x6B], PInt 2), ([0x6D], PNone)]] = Inr ()
   \<and> (\<exists>q'. update_question tagged_store [0x71, 0x31]
                [''metadata'' \<mapsto> PDict [([0x6B], PInt 2), ([0x6D], PNone)]]
              = (tagged_store\<lparr>questions := (questions tagged_store)([0x71, 0x31] \<mapsto> q')\<rparr>,
                 Inr q')
            \<and> metadata q' = [[0x6B] \<mapsto> PInt 2, [0x6D] \<mapsto> PNone])"
proof -
  have q: "questions tagged_store [0x71, 0x31] = Some tagged_question"
    by (simp add: tagged_store_def)
  have va: "validate_updates [''correct_answers'' \<mapsto> PList []] = Inr ()"
    by (simp add: validate_updates_def bad_field_def)
  have vm: "validate_updates [''metadata'' \<mapsto> PDict [([0x6B], PInt 2), ([0x6D], PNone)]]
              = Inr ()"
    by (simp add: validate_updates_def bad_field_def)
  have m: "metadata tagged_question ++ map_of [([0x6B], PInt 2), ([0x6D], PNone)]
             = [[0x6B] \<mapsto> PInt 2, [0x6D] \<mapsto> PNone]"
    by (rule ext) (simp add: tagged_question_def map_add_def)
  from update_retypes_by_count_and_merges_metadata [OF q va]
  have a: "\<exists>q'. update_question tagged_store [0x71, 0x31] [''correct_answers'' \<mapsto> PList []]
              = (tagged_store\<lparr>questions := (questions tagged_store)([0x71, 0x31] \<mapsto> q')\<rparr>,
                 Inr q')
            \<and> correct_answers q' = [] \<and> question_type q' = UNKNOWN"
    by auto
  from update_retypes_by_count_and_merges_metadata [OF q vm]
  have "\<exists>q'. update_question tagged_store [0x71, 0x31]
                [''metadata'' \<mapsto> PDict [([0x6B], PInt 2), ([0x6D], PNone)]]
              = (tagged_store\<lparr>questions := (questions tagged_store)([0x71, 0x31] \<mapsto> q')\<rparr>,
                 Inr q')
            \<and> metadata q'
                = metadata tagged_question ++ map_of [([0x6B], PInt 2), ([0x6D], PNone)]"
    by auto
  then have b: "\<exists>q'. update_question tagged_store [0x71, 0x31]
                [''metadata'' \<mapsto> PDict [([0x6B], PInt 2), ([0x6D], PNone)]]
              = (tagged_store\<lparr>questions := (questions tagged_store)([0x71, 0x31] \<mapsto> q')\<rparr>,
                 Inr q')
            \<and> metadata q' = [[0x6B] \<mapsto> PInt 2, [0x6D] \<mapsto> PNone]"
    by (simp only: m)
  from va a vm b show ?thesis by blast
qed

text \<open>
  Claim C6 as stated fails: the stored question \<open>tagged_question\<close> carries the tag
  "(multiple choice)" in its text, and after an update to an empty answer list its type
  is unknown, while the type classifier gives multiple choice for the updated record.
\<close>

theorem update_ignores_type_tag_counterexample:
  "(case snd (update_question tagged_store [0x71, 0x31] [''correct_answers'' \<mapsto> PList []]) of
      Inl e \<Rightarrow> False
    | Inr q' \<Rightarrow> correct_answers q' = [] \<and> question_type q' = UNKNOWN
                \<and> identify_question_type q' [] = MULTIPLE_CHOICE)"
  by (simp add: tagged_update)
     (simp add: tagged_question_def identify_question_type_def multiple_patterns_def regex_eval)

text \<open>
  Claim C5. Adding a question whose identity is empty or already stored fails and leaves
  the store (both dictionaries) as it was; removing an identity that is not stored
  returns false and leaves the store as it was; an update of an identity that is not
  stored, and an update whose fields do not all pass validation, fail and leave the
  store as it was; and an update that succeeds has passed every validation test.
\<close>

theorem store_mutations_atomic:
  "(qid q = [] \<or> qid q \<in> dom (questions st) \<longrightarrow>
      add_question st (Some q) src = (st, Inl ValidationError))
   \<and> (k \<notin> dom (questions st) \<longrightarrow> remove_question st k = (st, False))
   \<and> (k \<notin> dom (questions st) \<longrightarrow> update_question st k u = (st, Inl ValidationError))
   \<and> (validate_updates u \<noteq> Inr () \<longrightarrow> update_question st k u = (st, Inl ValidationError))
   \<and> (\<forall>q'. snd (update_question st k u) = Inr q' \<longrightarrow>
         validate_updates u = Inr () \<and> u \<noteq> Map.empty
         \<and> \<not> bad_field u ''question_text'' is_str
         \<and> \<not> bad_field u ''options'' (is_list_of is_option)
         \<and> \<not> bad_field u ''correct_answers'' (is_list_of is_str)
         \<and> \<not> bad_field u ''question_type'' is_question_type
         \<and> \<not> bad_field u ''needs_review'' is_bool
         \<and> \<not> bad_field u ''metadata'' is_dict
         \<and> \<not> bad_field u ''number'' is_str)"
proof -
  have v: "validate_updates u = Inl ValidationError \<or> validate_updates u = Inr ()"
    by (simp add: validate_updates_def)
  have a: "qid q = [] \<or> qid q \<in> dom (questions st) \<longrightarrow>
      add_question st (Some q) src = (st, Inl ValidationError)"
    by (auto simp: add_question_def)
  have r: "k \<notin> dom (questions st) \<longrightarrow> remove_question st k = (st, False)"
    by (simp add: remove_question_def)
  have u1: "k \<notin> dom (questions st) \<longrightarrow> update_question st k u = (st, Inl ValidationError)"
    by (auto simp: update_question_def split: option.splits)
  have u2: "validate_updates u \<noteq> Inr () \<longrightarrow> update_question st k u = (st, Inl ValidationError)"
    using v by (auto simp: update_question_def split: option.splits)
  have u3: "\<forall>q'. snd (update_question st k u) = Inr q' \<longrightarrow> validate_updates u = Inr ()"
    using v by (auto simp: update_question_def split: option.splits sum.splits)
  have u4: "validate_updates u = Inr () \<Longrightarrow> u \<noteq> Map.empty
         \<and> \<not> bad_field u ''question_text'' is_str
         \<and> \<not> bad_field u ''options'' (is_list_of is_option)
         \<and> \<not> bad_field u ''correct_answers'' (is_list_of is_str)
         \<and> \<not> bad_field u ''question_type'' is_question_type
         \<and> \<not> bad_field u ''needs_review'' is_bool
         \<and> \<not> bad_field u ''metadata'' is_dict
         \<and> \<not> bad_field u ''number'' is_str"
    by (simp add: validate_updates_def split: if_splits)
  from a r u1 u2 u3 u4 show ?thesis by blast
qed

theorem store_mutations_atomic_witness:
  "add_question tagged_store (Some tagged_question) [0x66] = (tagged_store, Inl ValidationError)
   \<and> add_question tagged_store (Some (tagged_question\<lparr>qid := []\<rparr>)) [0x66]
       = (tagged_store, Inl ValidationError)
   \<and> remove_question tagged_store [0x7A] = (tagged_store, False)
   \<and> update_question tagged_store [0x7A] [''number'' \<mapsto> PStr [0x32]]
       = (tagged_store, Inl ValidationError)
   \<and> update_question tagged_store [0x71, 0x31] [''number'' \<mapsto> PInt 2]
       = (tagged_store, Inl ValidationError)
   \<and> validate_updates [''correct_answers'' \<mapsto> PList []] = Inr ()"
proof -
  have a: "add_question tagged_store (Some tagged_question) [0x66]
             = (tagged_store, Inl ValidationError)"
    using store_mutations_atomic [of tagged_question tagged_store]
    by (simp add: tagged_store_def tagged_question_def)
  have b: "add_question tagged_store (Some (tagged_question\<lparr>qid := []\<rparr>)) [0x66]
             = (tagged_store, Inl ValidationError)"
    using store_mutations_atomic [of "tagged_question\<lparr>qid := []\<rparr>" tagged_store]
    by simp
  have c: "remove_question tagged_store [0x7A] = (tagged_store, False)
           \<and> update_question tagged_store [0x7A] [''number'' \<mapsto> PStr [0x32]]
               = (tagged_store, Inl ValidationError)"
    using store_mutations_atomic [of tagged_question tagged_store "[0x66]" "[0x7A]"
        "[''number'' \<mapsto> PStr [0x32]]"]
    by (simp add: tagged_store_def)
  have d: "update_question tagged_store [0x71, 0x31] [''number'' \<mapsto> PInt 2]
             = (tagged_store, Inl ValidationError)"
    using store_mutations_atomic [of tagged_question tagged_store "[0x66]" "[0x71, 0x31]"
        "[''number'' \<mapsto> PInt 2]"]
    by (simp add: validate_updates_def bad_field_def)
  have e: "validate_updates [''correct_answers'' \<mapsto> PList []] = Inr ()"
    using store_mutations_atomic [of tagged_question tagged_store "[0x66]" "[0x71, 0x31]"
        "[''correct_answers'' \<mapsto> PList []]"] tagged_update
    by simp
  from a b c d e show ?thesis by simp
qed

end
